theory Spec2Isabelle
  imports Main
begin

section \<open>Bulk-load submission and status polling (graph\_loader.py)\<close>

text \<open>
  A shallow embedding of \<^verbatim>\<open>GenerateNode.create_node\<close> and
  \<^verbatim>\<open>GenerateNode.upsert_node\<close> of
  \<^verbatim>\<open>db_services/aws_netpune/graph_loader.py\<close>. Both post a load request, wait, read
  the load id out of the answer and then ask for the status of the load at most
  \<^verbatim>\<open>limit\<close> times.

  Everything the two functions do to the outside is kept: the HTTP calls, the sleeps and
  the log records are appended, in program order, to a trace carried by the world; every
  \<^verbatim>\<open>raise\<close> and every failing lookup is an \<open>Inl\<close> result.
\<close>

subsection \<open>Values\<close>

text \<open>
  What \<^verbatim>\<open>resp.json()\<close> yields: a parsed JSON document. An object is the list of its
  members; a key is looked up with \<open>map_of\<close>. Numbers are kept as integers (no claim
  reads one).
\<close>

datatype json =
    JNull
  | JBool bool
  | JNum int
  | JStr string
  | JArr "json list"
  | JObj "(string \<times> json) list"

text \<open>
  The exceptions of the two functions: \<^verbatim>\<open>Exception(msg, *args)\<close> raised by the code
  itself, \<^verbatim>\<open>KeyError\<close> for a key a dict does not have, \<^verbatim>\<open>TypeError\<close> for
  subscripting a value that is not a dict with a string, and for \<^verbatim>\<open>range(None)\<close>, and
  \<^verbatim>\<open>JSONDecodeError\<close>, raised by \<^verbatim>\<open>resp.json()\<close> when the body of an answer is not a
  JSON document.
\<close>

datatype py_error =
    Exception string "json list"
  | KeyError string
  | TypeError
  | JSONDecodeError

text \<open>
  The answer of \<^verbatim>\<open>rest.post\<close> and \<^verbatim>\<open>rest.get\<close>. The class \<^verbatim>\<open>Rest\<close> is not part
  of the sources at hand; of its answers the code reads \<^verbatim>\<open>status_code\<close> and calls
  \<^verbatim>\<open>json()\<close>, as on the response object of an HTTP client library. \<open>body_is_json\<close>
  says whether the body is a JSON document; if it is, \<open>json_body\<close> is the document, and
  if it is not, \<^verbatim>\<open>json()\<close> raises and \<open>json_body\<close> is never read.
\<close>

record http_response =
  status_code :: int
  body_is_json :: bool
  json_body :: json

text \<open>
  The constants imported from \<^verbatim>\<open>rplus_constants\<close> and the fields read from
  \<^verbatim>\<open>config\<close>. Neither module is part of the sources at hand, so their values are
  parameters.
\<close>

record names =
  IAMROLE_ID :: string
  LOAD_ID :: string
  PAYLOAD :: string
  OVERALLSTATUS :: string
  STATUS :: string
  LOAD_FAILED :: string
  LOAD_IN_QUEUE :: string
  LOAD_COMPLETED :: string

record config =
  s3_bucket_name :: string
  region_name :: string

text \<open>
  One entry of the trace per effect:
  \<^item> \<open>Post url payload\<close> is \<^verbatim>\<open>rest.post(url, payload=payload)\<close>;
  \<^item> \<open>Get url queue_id\<close> is \<^verbatim>\<open>rest.get("{}/{}".format(url, queue_id))\<close>;
  \<^item> \<open>Sleep n\<close> is \<^verbatim>\<open>time.sleep(n)\<close>;
  \<^item> \<open>LogInfo r\<close> is \<^verbatim>\<open>Logging.info("status neptune -> {}".format(json.dumps(r)))\<close>;
  \<^item> \<open>LogError r\<close> is \<^verbatim>\<open>Logging.error("status neptune -> {}".format(json.dumps(r)))\<close>.
\<close>

datatype event =
    Post string "(string \<times> string) list"
  | Get string json
  | Sleep nat
  | LogInfo json
  | LogError json

text \<open>
  The world a call runs in. \<open>post_reply\<close> is what the loader endpoint answers to the
  submission, \<open>get_replies k\<close> what the status endpoint answers to the \<open>k\<close>-th status
  request it receives (counted from 0), \<open>gets_sent\<close> how many status requests it has
  received so far.
\<close>

record world =
  post_reply :: http_response
  get_replies :: "nat \<Rightarrow> http_response"
  gets_sent :: nat
  trace :: "event list"

subsection \<open>Collaborators\<close>

definition emit :: "event \<Rightarrow> world \<Rightarrow> world" where
  "emit e w = w\<lparr>trace := trace w @ [e]\<rparr>"

definition rest_post :: "string \<Rightarrow> (string \<times> string) list \<Rightarrow> world \<Rightarrow> http_response \<times> world" where
  "rest_post url payload w = (post_reply w, emit (Post url payload) w)"

definition rest_get :: "string \<Rightarrow> json \<Rightarrow> world \<Rightarrow> http_response \<times> world" where
  "rest_get url queue_id w =
     (get_replies w (gets_sent w), emit (Get url queue_id) (w\<lparr>gets_sent := Suc (gets_sent w)\<rparr>))"

definition sleep :: "nat \<Rightarrow> world \<Rightarrow> world" where
  "sleep n w = emit (Sleep n) w"

definition log_info :: "json \<Rightarrow> world \<Rightarrow> world" where
  "log_info r w = emit (LogInfo r) w"

definition log_error :: "json \<Rightarrow> world \<Rightarrow> world" where
  "log_error r w = emit (LogError r) w"

text \<open>\<^verbatim>\<open>resp.json()\<close>: the parsed body, or the decode error.\<close>

definition resp_json :: "http_response \<Rightarrow> py_error + json" where
  "resp_json resp = (if body_is_json resp then Inr (json_body resp) else Inl JSONDecodeError)"

text \<open>\<^verbatim>\<open>HTTPStatus.OK\<close>.\<close>

definition HTTP_OK :: int where
  "HTTP_OK = 200"

subsection \<open>Subscripting and formatting\<close>

text \<open>
  \<^verbatim>\<open>v[k]\<close> for a string \<open>k\<close>: a dict yields the member or raises \<^verbatim>\<open>KeyError\<close>;
  a list, a string, a number, a boolean and \<^verbatim>\<open>None\<close> raise \<^verbatim>\<open>TypeError\<close>.
\<close>

fun getitem :: "json \<Rightarrow> string \<Rightarrow> py_error + json" where
  "getitem (JObj kvs) k = (case map_of kvs k of None \<Rightarrow> Inl (KeyError k) | Some v \<Rightarrow> Inr v)"
| "getitem _ k = Inl TypeError"

text \<open>\<^verbatim>\<open>response[PAYLOAD][LOAD_ID]\<close>.\<close>

definition load_id_of :: "names \<Rightarrow> json \<Rightarrow> py_error + json" where
  "load_id_of c response =
     (case getitem response (PAYLOAD c) of
        Inl e \<Rightarrow> Inl e
      | Inr p \<Rightarrow> getitem p (LOAD_ID c))"

text \<open>\<^verbatim>\<open>response[PAYLOAD][OVERALLSTATUS][STATUS]\<close>.\<close>

definition status_of :: "names \<Rightarrow> json \<Rightarrow> py_error + json" where
  "status_of c response =
     (case getitem response (PAYLOAD c) of
        Inl e \<Rightarrow> Inl e
      | Inr p \<Rightarrow>
          (case getitem p (OVERALLSTATUS c) of
             Inl e \<Rightarrow> Inl e
           | Inr s \<Rightarrow> getitem s (STATUS c)))"

text \<open>
  \<^verbatim>\<open>s not in [LOAD_COMPLETED, LOAD_FAILED, LOAD_IN_QUEUE]\<close>: the three constants are
  strings, so a status equals one of them only if it is that string.
\<close>

definition stopping :: "names \<Rightarrow> json \<Rightarrow> bool" where
  "stopping c s =
     (s = JStr (LOAD_COMPLETED c) \<or> s = JStr (LOAD_FAILED c) \<or> s = JStr (LOAD_IN_QUEUE c))"

text \<open>\<^verbatim>\<open>"{}".format(key)\<close> for a key that is a string or \<^verbatim>\<open>None\<close> (the default).\<close>

fun py_str :: "string option \<Rightarrow> string" where
  "py_str None = ''None''"
| "py_str (Some s) = s"

subsection \<open>The request payloads\<close>

text \<open>The dict literal of \<^verbatim>\<open>create_node\<close>, in the order it is written.\<close>

definition create_payload :: "config \<Rightarrow> names \<Rightarrow> string option \<Rightarrow> (string \<times> string) list" where
  "create_payload cfg c key =
     [(''source'', ''s3://'' @ s3_bucket_name cfg @ ''/'' @ py_str key),
      (''format'', ''csv''),
      (''mode'', ''AUTO''),
      (''iamRoleArn'', ''arn:aws:iam::'' @ IAMROLE_ID c @ '':role/NeptuneAccessS3''),
      (''region'', region_name cfg),
      (''failOnError'', ''FALSE''),
      (''parallelism'', ''MEDIUM''),
      (''queueRequest'', ''TRUE''),
      (''updateSingleCardinalityProperties'', ''FALSE'')]"

text \<open>The dict literal of \<^verbatim>\<open>upsert_node\<close>.\<close>

definition upsert_payload :: "config \<Rightarrow> names \<Rightarrow> string option \<Rightarrow> (string \<times> string) list" where
  "upsert_payload cfg c key =
     [(''source'', ''s3://'' @ s3_bucket_name cfg @ ''/'' @ py_str key),
      (''format'', ''csv''),
      (''mode'', ''AUTO''),
      (''iamRoleArn'', ''arn:aws:iam::'' @ IAMROLE_ID c @ '':role/NeptuneAccessS3''),
      (''region'', region_name cfg),
      (''failOnError'', ''FALSE''),
      (''parallelism'', ''MEDIUM''),
      (''updateSingleCardinalityProperties'', ''TRUE'')]"

subsection \<open>The polling loops\<close>

text \<open>
  \<^verbatim>\<open>for iteration in range(limit): ...\<close> of \<^verbatim>\<open>create_node\<close>, by recursion on the
  number of iterations left. The loop hands back the variable \<^verbatim>\<open>response\<close> as it
  stands when the loop is left (it enters the loop holding the answer to the
  submission), or the exception that ended it.
\<close>

fun create_loop :: "names \<Rightarrow> string \<Rightarrow> json \<Rightarrow> nat \<Rightarrow> json \<Rightarrow> world \<Rightarrow> (py_error + json) \<times> world" where
  "create_loop c url queue_id 0 response w = (Inr response, w)"
| "create_loop c url queue_id (Suc n) response w =
     (case rest_get url queue_id w of (resp, w1) \<Rightarrow>
        if status_code resp \<noteq> HTTP_OK
        then (Inl (Exception ''error fetching status neptune'' []), w1)
        else
          (let w2 = sleep 1 w1
           in case resp_json resp of
                Inl e \<Rightarrow> (Inl e, w2)
              | Inr response' \<Rightarrow>
                  (let w3 = log_info response' w2
                   in case status_of c response' of
                        Inl e \<Rightarrow> (Inl e, w3)
                      | Inr s \<Rightarrow>
                          if \<not> stopping c s
                          then create_loop c url queue_id n response' (sleep 3 w3)
                          else (Inr response', w3))))"

text \<open>
  The loop of \<^verbatim>\<open>upsert_node\<close>: the same, but a stopping status equal to
  \<^verbatim>\<open>LOAD_FAILED\<close> is logged at error level before the loop is left.
\<close>

fun upsert_loop :: "names \<Rightarrow> string \<Rightarrow> json \<Rightarrow> nat \<Rightarrow> json \<Rightarrow> world \<Rightarrow> (py_error + json) \<times> world" where
  "upsert_loop c url queue_id 0 response w = (Inr response, w)"
| "upsert_loop c url queue_id (Suc n) response w =
     (case rest_get url queue_id w of (resp, w1) \<Rightarrow>
        if status_code resp \<noteq> HTTP_OK
        then (Inl (Exception ''error fetching status neptune'' []), w1)
        else
          (let w2 = sleep 1 w1
           in case resp_json resp of
                Inl e \<Rightarrow> (Inl e, w2)
              | Inr response' \<Rightarrow>
                  (let w3 = log_info response' w2
                   in case status_of c response' of
                        Inl e \<Rightarrow> (Inl e, w3)
                      | Inr s \<Rightarrow>
                          if \<not> stopping c s
                          then upsert_loop c url queue_id n response' (sleep 3 w3)
                          else if s = JStr (LOAD_FAILED c)
                          then (Inr response', log_error response' w3)
                          else (Inr response', w3))))"

subsection \<open>The two entry points\<close>

text \<open>
  \<^verbatim>\<open>limit\<close> is \<^verbatim>\<open>None\<close> (the default) or an integer; \<^verbatim>\<open>range(None)\<close> raises
  \<^verbatim>\<open>TypeError\<close>, and \<^verbatim>\<open>range(l)\<close> has \<open>nat l\<close> elements (none for \<open>l \<le> 0\<close>).
  \<^verbatim>\<open>key\<close> is \<^verbatim>\<open>None\<close> (the default) or a string. The result is the value returned
  or the exception raised, with the world the call leaves behind. On an answer that is
  not HTTP 200 the argument \<^verbatim>\<open>resp.json()\<close> of the exception is evaluated first, so a
  body that is not JSON raises the decode error instead.
\<close>

definition create_node ::
  "config \<Rightarrow> names \<Rightarrow> int option \<Rightarrow> string option \<Rightarrow> string \<Rightarrow> world \<Rightarrow> (py_error + json) \<times> world" where
  "create_node cfg c limit key url w =
     (let payload = create_payload cfg c key
      in case rest_post url payload w of (resp, w1) \<Rightarrow>
        (let w2 = sleep 2 w1
         in if status_code resp \<noteq> HTTP_OK
            then
              (case resp_json resp of
                 Inl e \<Rightarrow> (Inl e, w2)
               | Inr body \<Rightarrow> (Inl (Exception ''Error to post neptune -> '' [body]), w2))
            else
              (case resp_json resp of
                 Inl e \<Rightarrow> (Inl e, w2)
               | Inr response \<Rightarrow>
                   (case load_id_of c response of
                      Inl e \<Rightarrow> (Inl e, w2)
                    | Inr queue_id \<Rightarrow>
                        (case limit of
                           None \<Rightarrow> (Inl TypeError, w2)
                         | Some l \<Rightarrow>
                             (case create_loop c url queue_id (nat l) response w2 of
                                (Inl e, w3) \<Rightarrow> (Inl e, w3)
                              | (Inr response', w3) \<Rightarrow> (status_of c response', w3)))))))"

definition upsert_node ::
  "config \<Rightarrow> names \<Rightarrow> int option \<Rightarrow> string option \<Rightarrow> string \<Rightarrow> world \<Rightarrow> (py_error + json) \<times> world" where
  "upsert_node cfg c limit key url w =
     (let payload = upsert_payload cfg c key
      in case rest_post url payload w of (resp, w1) \<Rightarrow>
        (let w2 = sleep 2 w1
         in if status_code resp \<noteq> HTTP_OK
            then
              (case resp_json resp of
                 Inl e \<Rightarrow> (Inl e, w2)
               | Inr body \<Rightarrow> (Inl (Exception ''Error to post neptune -> '' [body]), w2))
            else
              (case resp_json resp of
                 Inl e \<Rightarrow> (Inl e, w2)
               | Inr response \<Rightarrow>
                   (case load_id_of c response of
                      Inl e \<Rightarrow> (Inl e, w2)
                    | Inr queue_id \<Rightarrow>
                        (case limit of
                           None \<Rightarrow> (Inl TypeError, w2)
                         | Some l \<Rightarrow>
                             (case upsert_loop c url queue_id (nat l) response w2 of
                                (Inl e, w3) \<Rightarrow> (Inl e, w3)
                              | (Inr response', w3) \<Rightarrow> (status_of c response', w3)))))))"

subsection \<open>Vocabulary of the properties\<close>

text \<open>
  The answer to the \<open>i\<close>-th status request of a call that starts in world \<open>w\<close>
  (counted from 0).
\<close>

definition reply_at :: "world \<Rightarrow> nat \<Rightarrow> http_response" where
  "reply_at w i = get_replies w (gets_sent w + i)"

text \<open>
  A status answer after which the loop goes on: HTTP 200, the body is JSON, the status
  field is there and it is none of the three stopping codes.
\<close>

definition transitional :: "names \<Rightarrow> http_response \<Rightarrow> bool" where
  "transitional c r =
     (status_code r = HTTP_OK \<and> body_is_json r \<and>
      (case status_of c (json_body r) of Inl e \<Rightarrow> False | Inr s \<Rightarrow> \<not> stopping c s))"

text \<open>A status answer with HTTP 200 whose body is JSON and whose status field is \<open>s\<close>.\<close>

definition reports :: "names \<Rightarrow> http_response \<Rightarrow> json \<Rightarrow> bool" where
  "reports c r s =
     (status_code r = HTTP_OK \<and> body_is_json r \<and> status_of c (json_body r) = Inr s)"

text \<open>
  What one iteration that goes on leaves in the trace, and what \<open>j\<close> of them in a row
  leave: the request, the pause between polls, the log record and the backoff pause.
\<close>

definition backoff_round :: "string \<Rightarrow> json \<Rightarrow> http_response \<Rightarrow> event list" where
  "backoff_round url q r = [Get url q, Sleep 1, LogInfo (json_body r), Sleep 3]"

definition backoff_rounds :: "string \<Rightarrow> json \<Rightarrow> world \<Rightarrow> nat \<Rightarrow> event list" where
  "backoff_rounds url q w j = concat (map (\<lambda>i. backoff_round url q (reply_at w i)) [0..<j])"

text \<open>The world after one such iteration, and after \<open>j\<close> of them.\<close>

definition after_round :: "string \<Rightarrow> json \<Rightarrow> world \<Rightarrow> world" where
  "after_round url q w =
     w\<lparr>gets_sent := Suc (gets_sent w), trace := trace w @ backoff_round url q (reply_at w 0)\<rparr>"

definition after_rounds :: "string \<Rightarrow> json \<Rightarrow> nat \<Rightarrow> world \<Rightarrow> world" where
  "after_rounds url q j w =
     w\<lparr>gets_sent := gets_sent w + j, trace := trace w @ backoff_rounds url q w j\<rparr>"

text \<open>The world after the submission: the request and the settle pause.\<close>

definition submitted :: "string \<Rightarrow> (string \<times> string) list \<Rightarrow> world \<Rightarrow> world" where
  "submitted url payload w = w\<lparr>trace := trace w @ [Post url payload, Sleep 2]\<rparr>"

text \<open>
  The call that took the world from \<open>w\<close> to \<open>w'\<close> sent its \<open>j\<close>-th status
  request (counted from 0), and so saw the answer \<open>reply_at w j\<close>.
\<close>

definition fetched :: "world \<Rightarrow> nat \<Rightarrow> world \<Rightarrow> bool" where
  "fetched w j w' = (gets_sent w + j < gets_sent w')"

subsection \<open>A concrete endpoint\<close>

text \<open>
  Values to run the two functions on: the constants as the loader API spells them, an
  accepted submission, status answers and failing answers, and a world whose status
  endpoint plays a list of answers and then a fixed one.
\<close>

definition neptune_names :: names where
  "neptune_names =
     \<lparr>IAMROLE_ID = ''123456789012'', LOAD_ID = ''loadId'', PAYLOAD = ''payload'',
      OVERALLSTATUS = ''overallStatus'', STATUS = ''status'', LOAD_FAILED = ''LOAD_FAILED'',
      LOAD_IN_QUEUE = ''LOAD_IN_QUEUE'', LOAD_COMPLETED = ''LOAD_COMPLETED''\<rparr>"

definition example_config :: config where
  "example_config = \<lparr>s3_bucket_name = ''bucket'', region_name = ''us-east-1''\<rparr>"

definition accepted_reply :: http_response where
  "accepted_reply =
     \<lparr>status_code = 200, body_is_json = True,
      json_body = JObj [(''status'', JStr ''200 OK''),
                        (''payload'', JObj [(''loadId'', JStr ''ef478d76'')])]\<rparr>"

definition status_reply :: "string \<Rightarrow> http_response" where
  "status_reply code =
     \<lparr>status_code = 200, body_is_json = True,
      json_body = JObj [(''status'', JStr ''200 OK''),
                        (''payload'', JObj [(''overallStatus'', JObj [(''status'', JStr code)])])]\<rparr>"

definition error_reply :: http_response where
  "error_reply =
     \<lparr>status_code = 500, body_is_json = True,
      json_body = JObj [(''code'', JStr ''InternalFailure'')]\<rparr>"


definition scripted :: "http_response \<Rightarrow> http_response list \<Rightarrow> http_response \<Rightarrow> world" where
  "scripted p rs d =
     \<lparr>post_reply = p, get_replies = (\<lambda>k. if k < length rs then rs ! k else d),
      gets_sent = 0, trace = []\<rparr>"

text \<open>The worlds the properties are run on, named after what their status endpoint does.\<close>

abbreviation failing_world :: world where
  "failing_world \<equiv>
     scripted accepted_reply [status_reply ''LOAD_IN_PROGRESS'', status_reply ''LOAD_IN_PROGRESS'', status_reply ''LOAD_FAILED''] error_reply"

abbreviation completing_world :: world where
  "completing_world \<equiv>
     scripted accepted_reply [status_reply ''LOAD_IN_PROGRESS'', status_reply ''LOAD_COMPLETED''] (status_reply ''LOAD_IN_PROGRESS'')"

abbreviation broken_world :: world where
  "broken_world \<equiv>
     scripted accepted_reply [status_reply ''LOAD_IN_PROGRESS''] error_reply"

abbreviation queued_world :: world where
  "queued_world \<equiv>
     scripted accepted_reply [status_reply ''LOAD_IN_QUEUE''] error_reply"

abbreviation completed_world :: world where
  "completed_world \<equiv>
     scripted accepted_reply [status_reply ''LOAD_COMPLETED''] error_reply"

abbreviation stalled_world :: world where
  "stalled_world \<equiv>
     scripted accepted_reply [] (status_reply ''LOAD_IN_PROGRESS'')"

abbreviation unpolled_world :: world where
  "unpolled_world \<equiv>
     scripted accepted_reply [] (status_reply ''LOAD_COMPLETED'')"

abbreviation rejecting_world :: world where
  "rejecting_world \<equiv>
     scripted error_reply [] error_reply"


subsection \<open>How the loops run\<close>

lemma after_rounds_0: "after_rounds url q 0 w = w"
  by (simp add: after_rounds_def backoff_rounds_def)

lemma reply_at_after_round: "reply_at (after_round url q w) i = reply_at w (Suc i)"
  by (simp add: reply_at_def after_round_def)

lemma backoff_rounds_Suc:
  "backoff_rounds url q w (Suc j) =
     backoff_round url q (reply_at w 0) @ backoff_rounds url q (after_round url q w) j"
proof -
  have "[0..<Suc j] = 0 # map Suc [0..<j]"
    by (simp add: upt_conv_Cons map_Suc_upt del: upt_Suc)
  then show ?thesis
    by (simp add: backoff_rounds_def reply_at_after_round o_def del: upt_Suc)
qed

lemma after_rounds_Suc:
  "after_rounds url q (Suc j) w = after_rounds url q j (after_round url q w)"
  unfolding after_rounds_def backoff_rounds_Suc
  by (simp add: after_round_def)

lemma create_loop_round:
  assumes "transitional c (reply_at w 0)"
  shows "create_loop c url q (Suc n) r w =
           create_loop c url q n (json_body (reply_at w 0)) (after_round url q w)"
proof -
  from assms obtain s where "status_code (reply_at w 0) = HTTP_OK"
    and "body_is_json (reply_at w 0)"
    and "status_of c (json_body (reply_at w 0)) = Inr s" and "\<not> stopping c s"
    by (auto simp: transitional_def split: sum.splits)
  then show ?thesis
    by (simp add: reply_at_def rest_get_def resp_json_def sleep_def log_info_def emit_def
        after_round_def backoff_round_def Let_def)
qed

lemma create_loop_rounds:
  assumes "\<forall>i<j. transitional c (reply_at w i)"
  shows "create_loop c url q (j + n) r w =
           create_loop c url q n (if j = 0 then r else json_body (reply_at w (j - 1)))
             (after_rounds url q j w)"
  using assms
proof (induction j arbitrary: w r)
  case 0
  show ?case by (simp add: after_rounds_0)
next
  case (Suc j)
  have first: "transitional c (reply_at w 0)"
    using Suc.prems by simp
  have rest: "\<forall>i<j. transitional c (reply_at (after_round url q w) i)"
    using Suc.prems by (simp add: reply_at_after_round)
  have "create_loop c url q (Suc j + n) r w =
          create_loop c url q (j + n) (json_body (reply_at w 0)) (after_round url q w)"
    unfolding add_Suc by (rule create_loop_round [OF first])
  also have "\<dots> = create_loop c url q n
      (if j = 0 then json_body (reply_at w 0)
       else json_body (reply_at (after_round url q w) (j - 1)))
      (after_rounds url q j (after_round url q w))"
    by (rule Suc.IH [OF rest])
  also have "\<dots> = create_loop c url q n
      (if Suc j = 0 then r else json_body (reply_at w (Suc j - 1)))
      (after_rounds url q (Suc j) w)"
    by (cases j) (simp_all add: reply_at_after_round after_rounds_Suc)
  finally show ?case .
qed

lemma create_loop_stop:
  assumes "reports c (reply_at w 0) s" and "stopping c s"
  shows "create_loop c url q (Suc n) r w =
           (Inr (json_body (reply_at w 0)),
            w\<lparr>gets_sent := Suc (gets_sent w),
              trace := trace w @ [Get url q, Sleep 1, LogInfo (json_body (reply_at w 0))]\<rparr>)"
  using assms
  by (simp add: reports_def reply_at_def rest_get_def resp_json_def sleep_def log_info_def
      emit_def Let_def)

lemma create_loop_fetch_error:
  assumes "status_code (reply_at w 0) \<noteq> HTTP_OK"
  shows "create_loop c url q (Suc n) r w =
           (Inl (Exception ''error fetching status neptune'' []),
            w\<lparr>gets_sent := Suc (gets_sent w), trace := trace w @ [Get url q]\<rparr>)"
  using assms
  by (simp add: reply_at_def rest_get_def emit_def)

lemma reply_at_submitted: "reply_at (submitted url p w) i = reply_at w i"
  by (simp add: reply_at_def submitted_def)

lemma backoff_rounds_submitted:
  "backoff_rounds url q (submitted url' p w) j = backoff_rounds url q w j"
  by (simp add: backoff_rounds_def reply_at_submitted)

lemma create_node_accepted:
  assumes "status_code (post_reply w) = HTTP_OK"
    and "body_is_json (post_reply w)"
    and "load_id_of c (json_body (post_reply w)) = Inr q"
  shows "create_node cfg c (Some l) key url w =
           (case create_loop c url q (nat l) (json_body (post_reply w))
                   (submitted url (create_payload cfg c key) w) of
              (Inl e, w3) \<Rightarrow> (Inl e, w3)
            | (Inr r, w3) \<Rightarrow> (status_of c r, w3))"
  using assms
  by (simp add: create_node_def rest_post_def resp_json_def sleep_def emit_def submitted_def
      Let_def)

lemma create_node_stop:
  assumes ok: "status_code (post_reply w) = HTTP_OK"
    and js: "body_is_json (post_reply w)"
    and q: "load_id_of c (json_body (post_reply w)) = Inr q"
    and j: "j < nat l"
    and before: "\<forall>i<j. transitional c (reply_at w i)"
    and at: "reports c (reply_at w j) s"
    and stop: "stopping c s"
  shows "create_node cfg c (Some l) key url w =
           (Inr s,
            w\<lparr>gets_sent := gets_sent w + Suc j,
              trace := trace w @ [Post url (create_payload cfg c key), Sleep 2]
                @ backoff_rounds url q w j
                @ [Get url q, Sleep 1, LogInfo (json_body (reply_at w j))]\<rparr>)"
proof -
  define w0 where "w0 = submitted url (create_payload cfg c key) w"
  define w1 where "w1 = after_rounds url q j w0"
  define n where "n = nat l - Suc j"
  have n: "nat l = j + Suc n"
    using j by (simp add: n_def)
  have before0: "\<forall>i<j. transitional c (reply_at w0 i)"
    using before by (simp add: w0_def reply_at_submitted)
  have r1: "reply_at w1 0 = reply_at w j"
    by (simp add: w1_def w0_def reply_at_def after_rounds_def submitted_def)
  have at1: "reports c (reply_at w1 0) s"
    using at by (simp add: r1)
  have st: "status_of c (json_body (reply_at w j)) = Inr s"
    using at by (simp add: reports_def)
  have "create_loop c url q (nat l) (json_body (post_reply w)) w0 =
          create_loop c url q (Suc n)
            (if j = 0 then json_body (post_reply w) else json_body (reply_at w0 (j - 1))) w1"
    unfolding n w1_def by (rule create_loop_rounds [OF before0])
  also have "\<dots> = (Inr (json_body (reply_at w1 0)),
            w1\<lparr>gets_sent := Suc (gets_sent w1),
              trace := trace w1 @ [Get url q, Sleep 1, LogInfo (json_body (reply_at w1 0))]\<rparr>)"
    by (rule create_loop_stop [OF at1 stop])
  finally have loop: "create_loop c url q (nat l) (json_body (post_reply w)) w0 =
      (Inr (json_body (reply_at w j)),
       w1\<lparr>gets_sent := Suc (gets_sent w1),
         trace := trace w1 @ [Get url q, Sleep 1, LogInfo (json_body (reply_at w j))]\<rparr>)"
    by (simp add: r1)
  have w1: "w1 = w\<lparr>gets_sent := gets_sent w + j,
      trace := trace w @ [Post url (create_payload cfg c key), Sleep 2] @ backoff_rounds url q w j\<rparr>"
    by (simp add: w1_def w0_def after_rounds_def backoff_rounds_submitted)
      (simp add: submitted_def)
  show ?thesis
    unfolding create_node_accepted [OF ok js q] w0_def [symmetric] loop
    by (simp add: st w1)
qed

lemma create_node_exhausted:
  assumes ok: "status_code (post_reply w) = HTTP_OK"
    and js: "body_is_json (post_reply w)"
    and q: "load_id_of c (json_body (post_reply w)) = Inr q"
    and all: "\<forall>i<nat l. transitional c (reply_at w i)"
  shows "create_node cfg c (Some l) key url w =
           (status_of c (if nat l = 0 then json_body (post_reply w)
                         else json_body (reply_at w (nat l - 1))),
            w\<lparr>gets_sent := gets_sent w + nat l,
              trace := trace w @ [Post url (create_payload cfg c key), Sleep 2]
                @ backoff_rounds url q w (nat l)\<rparr>)"
proof -
  define w0 where "w0 = submitted url (create_payload cfg c key) w"
  have all0: "\<forall>i<nat l. transitional c (reply_at w0 i)"
    using all by (simp add: w0_def reply_at_submitted)
  have "create_loop c url q (nat l + 0) (json_body (post_reply w)) w0 =
          create_loop c url q 0
            (if nat l = 0 then json_body (post_reply w) else json_body (reply_at w0 (nat l - 1)))
            (after_rounds url q (nat l) w0)"
    by (rule create_loop_rounds [OF all0])
  then have loop: "create_loop c url q (nat l) (json_body (post_reply w)) w0 =
      (Inr (if nat l = 0 then json_body (post_reply w) else json_body (reply_at w (nat l - 1))),
       after_rounds url q (nat l) w0)"
    by (simp add: w0_def reply_at_submitted)
  have w1: "after_rounds url q (nat l) w0 = w\<lparr>gets_sent := gets_sent w + nat l,
      trace := trace w @ [Post url (create_payload cfg c key), Sleep 2]
        @ backoff_rounds url q w (nat l)\<rparr>"
    by (simp add: w0_def after_rounds_def backoff_rounds_submitted)
      (simp add: submitted_def)
  show ?thesis
    unfolding create_node_accepted [OF ok js q] w0_def [symmetric] loop
    by (simp add: w1)
qed

lemma create_node_fetch_error:
  assumes ok: "status_code (post_reply w) = HTTP_OK"
    and js: "body_is_json (post_reply w)"
    and q: "load_id_of c (json_body (post_reply w)) = Inr q"
    and j: "j < nat l"
    and before: "\<forall>i<j. transitional c (reply_at w i)"
    and at: "status_code (reply_at w j) \<noteq> HTTP_OK"
  shows "create_node cfg c (Some l) key url w =
           (Inl (Exception ''error fetching status neptune'' []),
            w\<lparr>gets_sent := gets_sent w + Suc j,
              trace := trace w @ [Post url (create_payload cfg c key), Sleep 2]
                @ backoff_rounds url q w j @ [Get url q]\<rparr>)"
proof -
  define w0 where "w0 = submitted url (create_payload cfg c key) w"
  define w1 where "w1 = after_rounds url q j w0"
  define n where "n = nat l - Suc j"
  have n: "nat l = j + Suc n"
    using j by (simp add: n_def)
  have before0: "\<forall>i<j. transitional c (reply_at w0 i)"
    using before by (simp add: w0_def reply_at_submitted)
  have r1: "reply_at w1 0 = reply_at w j"
    by (simp add: w1_def w0_def reply_at_def after_rounds_def submitted_def)
  have at1: "status_code (reply_at w1 0) \<noteq> HTTP_OK"
    using at by (simp add: r1)
  have "create_loop c url q (nat l) (json_body (post_reply w)) w0 =
          create_loop c url q (Suc n)
            (if j = 0 then json_body (post_reply w) else json_body (reply_at w0 (j - 1))) w1"
    unfolding n w1_def by (rule create_loop_rounds [OF before0])
  also have "\<dots> = (Inl (Exception ''error fetching status neptune'' []),
            w1\<lparr>gets_sent := Suc (gets_sent w1), trace := trace w1 @ [Get url q]\<rparr>)"
    by (rule create_loop_fetch_error [OF at1])
  finally have loop: "create_loop c url q (nat l) (json_body (post_reply w)) w0 =
      (Inl (Exception ''error fetching status neptune'' []),
       w1\<lparr>gets_sent := Suc (gets_sent w1), trace := trace w1 @ [Get url q]\<rparr>)" .
  have w1: "w1 = w\<lparr>gets_sent := gets_sent w + j,
      trace := trace w @ [Post url (create_payload cfg c key), Sleep 2] @ backoff_rounds url q w j\<rparr>"
    by (simp add: w1_def w0_def after_rounds_def backoff_rounds_submitted)
      (simp add: submitted_def)
  show ?thesis
    unfolding create_node_accepted [OF ok js q] w0_def [symmetric] loop
    by (simp add: w1)
qed

lemma upsert_loop_round:
  assumes "transitional c (reply_at w 0)"
  shows "upsert_loop c url q (Suc n) r w =
           upsert_loop c url q n (json_body (reply_at w 0)) (after_round url q w)"
proof -
  from assms obtain s where "status_code (reply_at w 0) = HTTP_OK"
    and "body_is_json (reply_at w 0)"
    and "status_of c (json_body (reply_at w 0)) = Inr s" and "\<not> stopping c s"
    by (auto simp: transitional_def split: sum.splits)
  then show ?thesis
    by (simp add: reply_at_def rest_get_def resp_json_def sleep_def log_info_def emit_def
        after_round_def backoff_round_def Let_def)
qed

lemma upsert_loop_rounds:
  assumes "\<forall>i<j. transitional c (reply_at w i)"
  shows "upsert_loop c url q (j + n) r w =
           upsert_loop c url q n (if j = 0 then r else json_body (reply_at w (j - 1)))
             (after_rounds url q j w)"
  using assms
proof (induction j arbitrary: w r)
  case 0
  show ?case by (simp add: after_rounds_0)
next
  case (Suc j)
  have first: "transitional c (reply_at w 0)"
    using Suc.prems by simp
  have rest: "\<forall>i<j. transitional c (reply_at (after_round url q w) i)"
    using Suc.prems by (simp add: reply_at_after_round)
  have "upsert_loop c url q (Suc j + n) r w =
          upsert_loop c url q (j + n) (json_body (reply_at w 0)) (after_round url q w)"
    unfolding add_Suc by (rule upsert_loop_round [OF first])
  also have "\<dots> = upsert_loop c url q n
      (if j = 0 then json_body (reply_at w 0)
       else json_body (reply_at (after_round url q w) (j - 1)))
      (after_rounds url q j (after_round url q w))"
    by (rule Suc.IH [OF rest])
  also have "\<dots> = upsert_loop c url q n
      (if Suc j = 0 then r else json_body (reply_at w (Suc j - 1)))
      (after_rounds url q (Suc j) w)"
    by (cases j) (simp_all add: reply_at_after_round after_rounds_Suc)
  finally show ?case .
qed

lemma upsert_loop_fetch_error:
  assumes "status_code (reply_at w 0) \<noteq> HTTP_OK"
  shows "upsert_loop c url q (Suc n) r w =
           (Inl (Exception ''error fetching status neptune'' []),
            w\<lparr>gets_sent := Suc (gets_sent w), trace := trace w @ [Get url q]\<rparr>)"
  using assms
  by (simp add: reply_at_def rest_get_def emit_def)

lemma upsert_node_accepted:
  assumes "status_code (post_reply w) = HTTP_OK"
    and "body_is_json (post_reply w)"
    and "load_id_of c (json_body (post_reply w)) = Inr q"
  shows "upsert_node cfg c (Some l) key url w =
           (case upsert_loop c url q (nat l) (json_body (post_reply w))
                   (submitted url (upsert_payload cfg c key) w) of
              (Inl e, w3) \<Rightarrow> (Inl e, w3)
            | (Inr r, w3) \<Rightarrow> (status_of c r, w3))"
  using assms
  by (simp add: upsert_node_def rest_post_def resp_json_def sleep_def emit_def submitted_def
      Let_def)

lemma upsert_node_exhausted:
  assumes ok: "status_code (post_reply w) = HTTP_OK"
    and js: "body_is_json (post_reply w)"
    and q: "load_id_of c (json_body (post_reply w)) = Inr q"
    and all: "\<forall>i<nat l. transitional c (reply_at w i)"
  shows "upsert_node cfg c (Some l) key url w =
           (status_of c (if nat l = 0 then json_body (post_reply w)
                         else json_body (reply_at w (nat l - 1))),
            w\<lparr>gets_sent := gets_sent w + nat l,
              trace := trace w @ [Post url (upsert_payload cfg c key), Sleep 2]
                @ backoff_rounds url q w (nat l)\<rparr>)"
proof -
  define w0 where "w0 = submitted url (upsert_payload cfg c key) w"
  have all0: "\<forall>i<nat l. transitional c (reply_at w0 i)"
    using all by (simp add: w0_def reply_at_submitted)
  have "upsert_loop c url q (nat l + 0) (json_body (post_reply w)) w0 =
          upsert_loop c url q 0
            (if nat l = 0 then json_body (post_reply w) else json_body (reply_at w0 (nat l - 1)))
            (after_rounds url q (nat l) w0)"
    by (rule upsert_loop_rounds [OF all0])
  then have loop: "upsert_loop c url q (nat l) (json_body (post_reply w)) w0 =
      (Inr (if nat l = 0 then json_body (post_reply w) else json_body (reply_at w (nat l - 1))),
       after_rounds url q (nat l) w0)"
    by (simp add: w0_def reply_at_submitted)
  have w1: "after_rounds url q (nat l) w0 = w\<lparr>gets_sent := gets_sent w + nat l,
      trace := trace w @ [Post url (upsert_payload cfg c key), Sleep 2]
        @ backoff_rounds url q w (nat l)\<rparr>"
    by (simp add: w0_def after_rounds_def backoff_rounds_submitted)
      (simp add: submitted_def)
  show ?thesis
    unfolding upsert_node_accepted [OF ok js q] w0_def [symmetric] loop
    by (simp add: w1)
qed

lemma upsert_node_fetch_error:
  assumes ok: "status_code (post_reply w) = HTTP_OK"
    and js: "body_is_json (post_reply w)"
    and q: "load_id_of c (json_body (post_reply w)) = Inr q"
    and j: "j < nat l"
    and before: "\<forall>i<j. transitional c (reply_at w i)"
    and at: "status_code (reply_at w j) \<noteq> HTTP_OK"
  shows "upsert_node cfg c (Some l) key url w =
           (Inl (Exception ''error fetching status neptune'' []),
            w\<lparr>gets_sent := gets_sent w + Suc j,
              trace := trace w @ [Post url (upsert_payload cfg c key), Sleep 2]
                @ backoff_rounds url q w j @ [Get url q]\<rparr>)"
proof -
  define w0 where "w0 = submitted url (upsert_payload cfg c key) w"
  define w1 where "w1 = after_rounds url q j w0"
  define n where "n = nat l - Suc j"
  have n: "nat l = j + Suc n"
    using j by (simp add: n_def)
  have before0: "\<forall>i<j. transitional c (reply_at w0 i)"
    using before by (simp add: w0_def reply_at_submitted)
  have r1: "reply_at w1 0 = reply_at w j"
    by (simp add: w1_def w0_def reply_at_def after_rounds_def submitted_def)
  have at1: "status_code (reply_at w1 0) \<noteq> HTTP_OK"
    using at by (simp add: r1)
  have "upsert_loop c url q (nat l) (json_body (post_reply w)) w0 =
          upsert_loop c url q (Suc n)
            (if j = 0 then json_body (post_reply w) else json_body (reply_at w0 (j - 1))) w1"
    unfolding n w1_def by (rule upsert_loop_rounds [OF before0])
  also have "\<dots> = (Inl (Exception ''error fetching status neptune'' []),
            w1\<lparr>gets_sent := Suc (gets_sent w1), trace := trace w1 @ [Get url q]\<rparr>)"
    by (rule upsert_loop_fetch_error [OF at1])
  finally have loop: "upsert_loop c url q (nat l) (json_body (post_reply w)) w0 =
      (Inl (Exception ''error fetching status neptune'' []),
       w1\<lparr>gets_sent := Suc (gets_sent w1), trace := trace w1 @ [Get url q]\<rparr>)" .
  have w1: "w1 = w\<lparr>gets_sent := gets_sent w + j,
      trace := trace w @ [Post url (upsert_payload cfg c key), Sleep 2] @ backoff_rounds url q w j\<rparr>"
    by (simp add: w1_def w0_def after_rounds_def backoff_rounds_submitted)
      (simp add: submitted_def)
  show ?thesis
    unfolding upsert_node_accepted [OF ok js q] w0_def [symmetric] loop
    by (simp add: w1)
qed

lemma upsert_loop_stop:
  assumes "reports c (reply_at w 0) s" and "stopping c s"
  shows "upsert_loop c url q (Suc n) r w =
           (Inr (json_body (reply_at w 0)),
            w\<lparr>gets_sent := Suc (gets_sent w),
              trace := trace w @ [Get url q, Sleep 1, LogInfo (json_body (reply_at w 0))]
                @ (if s = JStr (LOAD_FAILED c) then [LogError (json_body (reply_at w 0))] else [])\<rparr>)"
  using assms
  by (simp add: reports_def reply_at_def rest_get_def resp_json_def sleep_def log_info_def
      log_error_def emit_def Let_def)

lemma upsert_node_stop:
  assumes ok: "status_code (post_reply w) = HTTP_OK"
    and js: "body_is_json (post_reply w)"
    and q: "load_id_of c (json_body (post_reply w)) = Inr q"
    and j: "j < nat l"
    and before: "\<forall>i<j. transitional c (reply_at w i)"
    and at: "reports c (reply_at w j) s"
    and stop: "stopping c s"
  shows "upsert_node cfg c (Some l) key url w =
           (Inr s,
            w\<lparr>gets_sent := gets_sent w + Suc j,
              trace := trace w @ [Post url (upsert_payload cfg c key), Sleep 2]
                @ backoff_rounds url q w j
                @ [Get url q, Sleep 1, LogInfo (json_body (reply_at w j))]
                @ (if s = JStr (LOAD_FAILED c) then [LogError (json_body (reply_at w j))] else [])\<rparr>)"
proof -
  define w0 where "w0 = submitted url (upsert_payload cfg c key) w"
  define w1 where "w1 = after_rounds url q j w0"
  define n where "n = nat l - Suc j"
  have n: "nat l = j + Suc n"
    using j by (simp add: n_def)
  have before0: "\<forall>i<j. transitional c (reply_at w0 i)"
    using before by (simp add: w0_def reply_at_submitted)
  have r1: "reply_at w1 0 = reply_at w j"
    by (simp add: w1_def w0_def reply_at_def after_rounds_def submitted_def)
  have at1: "reports c (reply_at w1 0) s"
    using at by (simp add: r1)
  have st: "status_of c (json_body (reply_at w j)) = Inr s"
    using at by (simp add: reports_def)
  have "upsert_loop c url q (nat l) (json_body (post_reply w)) w0 =
          upsert_loop c url q (Suc n)
            (if j = 0 then json_body (post_reply w) else json_body (reply_at w0 (j - 1))) w1"
    unfolding n w1_def by (rule upsert_loop_rounds [OF before0])
  also have "\<dots> = (Inr (json_body (reply_at w1 0)),
            w1\<lparr>gets_sent := Suc (gets_sent w1),
              trace := trace w1 @ [Get url q, Sleep 1, LogInfo (json_body (reply_at w1 0))]
                @ (if s = JStr (LOAD_FAILED c) then [LogError (json_body (reply_at w1 0))] else [])\<rparr>)"
    by (rule upsert_loop_stop [OF at1 stop])
  finally have loop: "upsert_loop c url q (nat l) (json_body (post_reply w)) w0 =
      (Inr (json_body (reply_at w j)),
       w1\<lparr>gets_sent := Suc (gets_sent w1),
         trace := trace w1 @ [Get url q, Sleep 1, LogInfo (json_body (reply_at w j))]
           @ (if s = JStr (LOAD_FAILED c) then [LogError (json_body (reply_at w j))] else [])\<rparr>)"
    by (simp add: r1)
  have w1: "w1 = w\<lparr>gets_sent := gets_sent w + j,
      trace := trace w @ [Post url (upsert_payload cfg c key), Sleep 2] @ backoff_rounds url q w j\<rparr>"
    by (simp add: w1_def w0_def after_rounds_def backoff_rounds_submitted)
      (simp add: submitted_def)
  show ?thesis
    unfolding upsert_node_accepted [OF ok js q] w0_def [symmetric] loop
    by (simp add: st w1)
qed

text \<open>
  Conversely, the \<open>j\<close>-th status request is only sent after every earlier answer was
  one the loop goes on from, within the limit, and after an accepted submission.
\<close>

lemma gets_sent_after_round: "gets_sent (after_round url q w) = Suc (gets_sent w)"
  by (simp add: after_round_def)

lemma create_loop_reached:
  "gets_sent w + j < gets_sent (snd (create_loop c url q n r w))
   \<Longrightarrow> j < n \<and> (\<forall>i<j. transitional c (reply_at w i))"
proof (induction n arbitrary: w r j)
  case 0
  then show ?case by simp
next
  case (Suc n)
  show ?case
  proof (cases "transitional c (reply_at w 0)")
    case True
    show ?thesis
    proof (cases j)
      case 0
      then show ?thesis by simp
    next
      case (Suc k)
      have "gets_sent (after_round url q w) + k
              < gets_sent (snd (create_loop c url q n (json_body (reply_at w 0)) (after_round url q w)))"
        using Suc.prems unfolding create_loop_round [OF True]
        by (simp add: Suc gets_sent_after_round)
      then have "k < n \<and> (\<forall>i<k. transitional c (reply_at (after_round url q w) i))"
        by (rule Suc.IH)
      then have k: "k < n" and rest: "\<forall>i<k. transitional c (reply_at w (Suc i))"
        by (simp_all add: reply_at_after_round)
      have "transitional c (reply_at w i)" if "i < j" for i
      proof (cases i)
        case 0
        with True show ?thesis by simp
      next
        case (Suc m)
        with that \<open>j = Suc k\<close> rest show ?thesis by simp
      qed
      with k show ?thesis by (simp add: Suc)
    qed
  next
    case False
    have "gets_sent (snd (create_loop c url q (Suc n) r w)) = Suc (gets_sent w)"
      using False
      by (auto simp: transitional_def reply_at_def rest_get_def resp_json_def sleep_def
          log_info_def emit_def Let_def split: sum.splits)
    with Suc.prems have "j = 0" by simp
    then show ?thesis by simp
  qed
qed

lemma upsert_loop_reached:
  "gets_sent w + j < gets_sent (snd (upsert_loop c url q n r w))
   \<Longrightarrow> j < n \<and> (\<forall>i<j. transitional c (reply_at w i))"
proof (induction n arbitrary: w r j)
  case 0
  then show ?case by simp
next
  case (Suc n)
  show ?case
  proof (cases "transitional c (reply_at w 0)")
    case True
    show ?thesis
    proof (cases j)
      case 0
      then show ?thesis by simp
    next
      case (Suc k)
      have "gets_sent (after_round url q w) + k
              < gets_sent (snd (upsert_loop c url q n (json_body (reply_at w 0)) (after_round url q w)))"
        using Suc.prems unfolding upsert_loop_round [OF True]
        by (simp add: Suc gets_sent_after_round)
      then have "k < n \<and> (\<forall>i<k. transitional c (reply_at (after_round url q w) i))"
        by (rule Suc.IH)
      then have k: "k < n" and rest: "\<forall>i<k. transitional c (reply_at w (Suc i))"
        by (simp_all add: reply_at_after_round)
      have "transitional c (reply_at w i)" if "i < j" for i
      proof (cases i)
        case 0
        with True show ?thesis by simp
      next
        case (Suc m)
        with that \<open>j = Suc k\<close> rest show ?thesis by simp
      qed
      with k show ?thesis by (simp add: Suc)
    qed
  next
    case False
    have "gets_sent (snd (upsert_loop c url q (Suc n) r w)) = Suc (gets_sent w)"
      using False
      by (auto simp: transitional_def reply_at_def rest_get_def resp_json_def sleep_def
          log_info_def log_error_def emit_def Let_def split: sum.splits)
    with Suc.prems have "j = 0" by simp
    then show ?thesis by simp
  qed
qed

lemma create_node_reached:
  assumes "gets_sent w + j < gets_sent (snd (create_node cfg c limit key url w))"
  shows "status_code (post_reply w) = HTTP_OK
       \<and> body_is_json (post_reply w)
       \<and> (\<exists>q. load_id_of c (json_body (post_reply w)) = Inr q)
       \<and> (\<exists>l. limit = Some l \<and> j < nat l)
       \<and> (\<forall>i<j. transitional c (reply_at w i))"
proof -
  define w0 where "w0 = submitted url (create_payload cfg c key) w"
  have w0: "sleep 2 (emit (Post url (create_payload cfg c key)) w) = w0"
    by (simp add: w0_def submitted_def sleep_def emit_def)
  have sent0: "gets_sent w0 = gets_sent w"
    by (simp add: w0_def submitted_def)
  have ok: "status_code (post_reply w) = HTTP_OK"
    using assms
    by (auto simp: create_node_def rest_post_def Let_def w0 sent0 split: if_splits sum.splits)
  have js: "body_is_json (post_reply w)"
    using assms ok
    by (auto simp: create_node_def rest_post_def resp_json_def Let_def w0 sent0 split: if_splits)
  obtain q where q: "load_id_of c (json_body (post_reply w)) = Inr q"
    using assms ok js
    by (cases "load_id_of c (json_body (post_reply w))")
      (auto simp: create_node_def rest_post_def resp_json_def Let_def w0 sent0)
  obtain l where l: "limit = Some l"
    using assms ok js q
    by (cases limit) (auto simp: create_node_def rest_post_def resp_json_def Let_def w0 sent0)
  have "gets_sent (snd (create_node cfg c (Some l) key url w))
      = gets_sent (snd (create_loop c url q (nat l) (json_body (post_reply w)) w0))"
    unfolding create_node_accepted [OF ok js q] w0_def
    by (simp split: prod.splits sum.splits)
  with assms l have "gets_sent w0 + j
      < gets_sent (snd (create_loop c url q (nat l) (json_body (post_reply w)) w0))"
    by (simp add: sent0)
  then have "j < nat l \<and> (\<forall>i<j. transitional c (reply_at w0 i))"
    by (rule create_loop_reached)
  then show ?thesis
    using ok js q l by (simp add: w0_def reply_at_submitted)
qed

lemma upsert_node_reached:
  assumes "gets_sent w + j < gets_sent (snd (upsert_node cfg c limit key url w))"
  shows "status_code (post_reply w) = HTTP_OK
       \<and> body_is_json (post_reply w)
       \<and> (\<exists>q. load_id_of c (json_body (post_reply w)) = Inr q)
       \<and> (\<exists>l. limit = Some l \<and> j < nat l)
       \<and> (\<forall>i<j. transitional c (reply_at w i))"
proof -
  define w0 where "w0 = submitted url (upsert_payload cfg c key) w"
  have w0: "sleep 2 (emit (Post url (upsert_payload cfg c key)) w) = w0"
    by (simp add: w0_def submitted_def sleep_def emit_def)
  have sent0: "gets_sent w0 = gets_sent w"
    by (simp add: w0_def submitted_def)
  have ok: "status_code (post_reply w) = HTTP_OK"
    using assms
    by (auto simp: upsert_node_def rest_post_def Let_def w0 sent0 split: if_splits sum.splits)
  have js: "body_is_json (post_reply w)"
    using assms ok
    by (auto simp: upsert_node_def rest_post_def resp_json_def Let_def w0 sent0 split: if_splits)
  obtain q where q: "load_id_of c (json_body (post_reply w)) = Inr q"
    using assms ok js
    by (cases "load_id_of c (json_body (post_reply w))")
      (auto simp: upsert_node_def rest_post_def resp_json_def Let_def w0 sent0)
  obtain l where l: "limit = Some l"
    using assms ok js q
    by (cases limit) (auto simp: upsert_node_def rest_post_def resp_json_def Let_def w0 sent0)
  have "gets_sent (snd (upsert_node cfg c (Some l) key url w))
      = gets_sent (snd (upsert_loop c url q (nat l) (json_body (post_reply w)) w0))"
    unfolding upsert_node_accepted [OF ok js q] w0_def
    by (simp split: prod.splits sum.splits)
  with assms l have "gets_sent w0 + j
      < gets_sent (snd (upsert_loop c url q (nat l) (json_body (post_reply w)) w0))"
    by (simp add: sent0)
  then have "j < nat l \<and> (\<forall>i<j. transitional c (reply_at w0 i))"
    by (rule upsert_loop_reached)
  then show ?thesis
    using ok js q l by (simp add: w0_def reply_at_submitted)
qed

subsection \<open>Runs on the concrete endpoint\<close>

lemmas run_defs =
  scripted_def accepted_reply_def status_reply_def error_reply_def neptune_names_def
  reply_at_def transitional_def reports_def status_of_def load_id_of_def stopping_def HTTP_OK_def

lemma script_failed_third:
  "gets_sent (snd (create_node example_config neptune_names (Some 3) None ''https://db/loader''
      failing_world)) = 3
   \<and> gets_sent (snd (upsert_node example_config neptune_names (Some 3) None ''https://db/loader''
      failing_world)) = 3"
proof -
  let ?w = "failing_world"
  have ok: "status_code (post_reply ?w) = HTTP_OK"
    by (simp add: run_defs)
  have js: "body_is_json (post_reply ?w)"
    by (simp add: run_defs)
  have q: "load_id_of neptune_names (json_body (post_reply ?w)) = Inr (JStr ''ef478d76'')"
    by (simp add: run_defs)
  have j: "(2::nat) < nat 3"
    by simp
  have "transitional neptune_names (reply_at ?w 0)" and "transitional neptune_names (reply_at ?w 1)"
    by (simp_all add: run_defs)
  then have before: "\<forall>i<2. transitional neptune_names (reply_at ?w i)"
    by (auto dest: less_2_cases)
  have at: "reports neptune_names (reply_at ?w 2) (JStr ''LOAD_FAILED'')"
    by (simp add: run_defs)
  have stop: "stopping neptune_names (JStr ''LOAD_FAILED'')"
    by (simp add: stopping_def neptune_names_def)
  have sent: "gets_sent ?w = 0"
    by (simp add: scripted_def)
  show ?thesis
    unfolding create_node_stop [OF ok js q j before at stop]
      upsert_node_stop [OF ok js q j before at stop]
    by (simp add: sent)
qed

lemma script_completed_second:
  "gets_sent (snd (create_node example_config neptune_names (Some 5) (Some ''nodes.csv'') ''https://db/loader''
      completing_world)) = 2
   \<and> gets_sent (snd (upsert_node example_config neptune_names (Some 5) (Some ''nodes.csv'') ''https://db/loader''
      completing_world)) = 2"
proof -
  let ?w = "completing_world"
  have ok: "status_code (post_reply ?w) = HTTP_OK"
    by (simp add: run_defs)
  have js: "body_is_json (post_reply ?w)"
    by (simp add: run_defs)
  have q: "load_id_of neptune_names (json_body (post_reply ?w)) = Inr (JStr ''ef478d76'')"
    by (simp add: run_defs)
  have j: "(1::nat) < nat 5"
    by simp
  have "transitional neptune_names (reply_at ?w 0)"
    by (simp add: run_defs)
  then have before: "\<forall>i<1. transitional neptune_names (reply_at ?w i)"
    by simp
  have at: "reports neptune_names (reply_at ?w 1) (JStr ''LOAD_COMPLETED'')"
    by (simp add: run_defs)
  have stop: "stopping neptune_names (JStr ''LOAD_COMPLETED'')"
    by (simp add: stopping_def neptune_names_def)
  have sent: "gets_sent ?w = 0"
    by (simp add: scripted_def)
  show ?thesis
    unfolding create_node_stop [OF ok js q j before at stop]
      upsert_node_stop [OF ok js q j before at stop]
    by (simp add: sent)
qed

section \<open>The claims\<close>

text \<open>
  In what follows \<open>w\<close> is the world a call starts in. A submission is accepted when
  its answer is HTTP 200 with a JSON body that holds a load id, \<open>q\<close>. The world a call
  returns is compared with \<open>w\<close>: its \<open>gets_sent\<close> counts the status requests, its
  \<open>trace\<close> lists every effect in order.
\<close>

subsection \<open>Polling\<close>

text \<open>
  Claim C1. Let the submission be accepted and the limit \<open>l\<close> be at least 1. If each
  of the first \<open>l\<close> status answers is HTTP 200 with a status outside
  \<^verbatim>\<open>[LOAD_COMPLETED, LOAD_FAILED, LOAD_IN_QUEUE]\<close>, then \<^verbatim>\<open>create_node\<close> and
  \<^verbatim>\<open>upsert_node\<close> send exactly \<open>l\<close> status requests, each followed by the pause, the
  log record and the backoff pause, and return the status of the last answer; that
  status is none of the stopping codes, and so not \<^verbatim>\<open>LOAD_FAILED\<close>.
\<close>

theorem budget_exhausted_after_limit_fetches:
  assumes ok: "status_code (post_reply w) = HTTP_OK"
    and js: "body_is_json (post_reply w)"
    and q: "load_id_of c (json_body (post_reply w)) = Inr q"
    and l: "1 \<le> l"
    and all: "\<forall>i<nat l. transitional c (reply_at w i)"
  shows "\<exists>s. status_of c (json_body (reply_at w (nat l - 1))) = Inr s
           \<and> \<not> stopping c s \<and> s \<noteq> JStr (LOAD_FAILED c)
           \<and> create_node cfg c (Some l) key url w =
               (Inr s,
                w\<lparr>gets_sent := gets_sent w + nat l,
                  trace := trace w @ [Post url (create_payload cfg c key), Sleep 2]
                    @ backoff_rounds url q w (nat l)\<rparr>)
           \<and> upsert_node cfg c (Some l) key url w =
               (Inr s,
                w\<lparr>gets_sent := gets_sent w + nat l,
                  trace := trace w @ [Post url (upsert_payload cfg c key), Sleep 2]
                    @ backoff_rounds url q w (nat l)\<rparr>)"
proof -
  have pos: "nat l \<noteq> 0"
    using l by simp
  then have "transitional c (reply_at w (nat l - 1))"
    using all by simp
  then obtain s where s: "status_of c (json_body (reply_at w (nat l - 1))) = Inr s"
    and ns: "\<not> stopping c s"
    by (auto simp: transitional_def split: sum.splits)
  have nf: "s \<noteq> JStr (LOAD_FAILED c)"
    using ns by (auto simp: stopping_def)
  have cr: "create_node cfg c (Some l) key url w =
      (Inr s,
       w\<lparr>gets_sent := gets_sent w + nat l,
         trace := trace w @ [Post url (create_payload cfg c key), Sleep 2]
           @ backoff_rounds url q w (nat l)\<rparr>)"
    unfolding create_node_exhausted [OF ok js q all] using pos s by simp
  have up: "upsert_node cfg c (Some l) key url w =
      (Inr s,
       w\<lparr>gets_sent := gets_sent w + nat l,
         trace := trace w @ [Post url (upsert_payload cfg c key), Sleep 2]
           @ backoff_rounds url q w (nat l)\<rparr>)"
    unfolding upsert_node_exhausted [OF ok js q all] using pos s by simp
  show ?thesis
    using s ns nf cr up by blast
qed

theorem budget_exhausted_after_limit_fetches_witness:
  "status_code (post_reply stalled_world) = HTTP_OK
   \<and> body_is_json (post_reply stalled_world)
   \<and> load_id_of neptune_names
         (json_body (post_reply stalled_world))
       = Inr (JStr ''ef478d76'')
   \<and> (1::int) \<le> 3
   \<and> transitional neptune_names
         (reply_at stalled_world 0)
   \<and> transitional neptune_names
         (reply_at stalled_world 1)
   \<and> transitional neptune_names
         (reply_at stalled_world 2)
   \<and> fst (create_node example_config neptune_names (Some 3) (Some ''nodes.csv'') ''https://db/loader''
          stalled_world)
       = Inr (JStr ''LOAD_IN_PROGRESS'')
   \<and> gets_sent (snd (create_node example_config neptune_names (Some 3) (Some ''nodes.csv'')
          ''https://db/loader'' stalled_world)) = 3
   \<and> fst (upsert_node example_config neptune_names (Some 3) (Some ''nodes.csv'') ''https://db/loader''
          stalled_world)
       = Inr (JStr ''LOAD_IN_PROGRESS'')
   \<and> gets_sent (snd (upsert_node example_config neptune_names (Some 3) (Some ''nodes.csv'')
          ''https://db/loader'' stalled_world)) = 3"
proof -
  let ?w = "stalled_world"
  have ok: "status_code (post_reply ?w) = HTTP_OK"
    by (simp add: run_defs)
  have js: "body_is_json (post_reply ?w)"
    by (simp add: run_defs)
  have q: "load_id_of neptune_names (json_body (post_reply ?w)) = Inr (JStr ''ef478d76'')"
    by (simp add: run_defs)
  have l: "(1::int) \<le> 3"
    by simp
  have each: "transitional neptune_names (reply_at ?w i)" for i
    by (simp add: run_defs)
  then have all: "\<forall>i<nat 3. transitional neptune_names (reply_at ?w i)"
    by simp
  have st: "status_of neptune_names (json_body (reply_at ?w i)) = Inr (JStr ''LOAD_IN_PROGRESS'')" for i
    by (simp add: run_defs)
  have sent: "gets_sent ?w = 0"
    by (simp add: scripted_def)
  show ?thesis
    using budget_exhausted_after_limit_fetches [OF ok js q l all, of example_config "Some ''nodes.csv''"
        "''https://db/loader''"]
      ok js q each [of 0] each [of 1] each [of 2]
    by (auto simp: st sent)
qed

text \<open>
  Claim C3. Let the submission be accepted and the limit be at least 1. If the first
  status answer is HTTP 200 with status \<^verbatim>\<open>LOAD_IN_QUEUE\<close>, both functions return
  \<^verbatim>\<open>LOAD_IN_QUEUE\<close> after that one status request: the trace ends with the request,
  the pause of one second and the log record, with no backoff pause and no second
  request. (\<^verbatim>\<open>upsert_node\<close> adds its error record only if the constant
  \<^verbatim>\<open>LOAD_IN_QUEUE\<close> is the same string as \<^verbatim>\<open>LOAD_FAILED\<close>.)
\<close>

theorem in_queue_stops_at_first_fetch:
  assumes ok: "status_code (post_reply w) = HTTP_OK"
    and js: "body_is_json (post_reply w)"
    and q: "load_id_of c (json_body (post_reply w)) = Inr q"
    and l: "1 \<le> l"
    and at: "reports c (reply_at w 0) (JStr (LOAD_IN_QUEUE c))"
  shows "create_node cfg c (Some l) key url w =
           (Inr (JStr (LOAD_IN_QUEUE c)),
            w\<lparr>gets_sent := Suc (gets_sent w),
              trace := trace w @ [Post url (create_payload cfg c key), Sleep 2,
                Get url q, Sleep 1, LogInfo (json_body (reply_at w 0))]\<rparr>)
       \<and> upsert_node cfg c (Some l) key url w =
           (Inr (JStr (LOAD_IN_QUEUE c)),
            w\<lparr>gets_sent := Suc (gets_sent w),
              trace := trace w @ [Post url (upsert_payload cfg c key), Sleep 2,
                Get url q, Sleep 1, LogInfo (json_body (reply_at w 0))]
                @ (if LOAD_IN_QUEUE c = LOAD_FAILED c
                   then [LogError (json_body (reply_at w 0))] else [])\<rparr>)"
proof -
  have j: "0 < nat l"
    using l by simp
  have before: "\<forall>i<0. transitional c (reply_at w i)"
    by simp
  have stop: "stopping c (JStr (LOAD_IN_QUEUE c))"
    by (simp add: stopping_def)
  show ?thesis
    unfolding create_node_stop [OF ok js q j before at stop]
      upsert_node_stop [OF ok js q j before at stop]
    by (simp add: backoff_rounds_def)
qed

theorem in_queue_stops_at_first_fetch_witness:
  "status_code (post_reply queued_world) = HTTP_OK
   \<and> body_is_json (post_reply queued_world)
   \<and> load_id_of neptune_names (json_body (post_reply queued_world)) = Inr (JStr ''ef478d76'')
   \<and> (1::int) \<le> 5
   \<and> reports neptune_names (reply_at queued_world 0) (JStr (LOAD_IN_QUEUE neptune_names))
   \<and> fst (create_node example_config neptune_names (Some 5) (Some ''nodes.csv'')
          ''https://db/loader'' queued_world)
       = Inr (JStr ''LOAD_IN_QUEUE'')
   \<and> trace (snd (create_node example_config neptune_names (Some 5) (Some ''nodes.csv'')
          ''https://db/loader'' queued_world))
       = [Post ''https://db/loader'' (create_payload example_config neptune_names (Some ''nodes.csv'')),
          Sleep 2, Get ''https://db/loader'' (JStr ''ef478d76''), Sleep 1,
          LogInfo (json_body (status_reply ''LOAD_IN_QUEUE''))]
   \<and> gets_sent (snd (create_node example_config neptune_names (Some 5) (Some ''nodes.csv'')
          ''https://db/loader'' queued_world)) = 1
   \<and> fst (upsert_node example_config neptune_names (Some 5) (Some ''nodes.csv'')
          ''https://db/loader'' queued_world)
       = Inr (JStr ''LOAD_IN_QUEUE'')
   \<and> trace (snd (upsert_node example_config neptune_names (Some 5) (Some ''nodes.csv'')
          ''https://db/loader'' queued_world))
       = [Post ''https://db/loader'' (upsert_payload example_config neptune_names (Some ''nodes.csv'')),
          Sleep 2, Get ''https://db/loader'' (JStr ''ef478d76''), Sleep 1,
          LogInfo (json_body (status_reply ''LOAD_IN_QUEUE''))]"
proof -
  let ?w = "queued_world"
  have ok: "status_code (post_reply ?w) = HTTP_OK"
    by (simp add: run_defs)
  have js: "body_is_json (post_reply ?w)"
    by (simp add: run_defs)
  have q: "load_id_of neptune_names (json_body (post_reply ?w)) = Inr (JStr ''ef478d76'')"
    by (simp add: run_defs)
  have l: "(1::int) \<le> 5"
    by simp
  have at: "reports neptune_names (reply_at ?w 0) (JStr (LOAD_IN_QUEUE neptune_names))"
    by (simp add: run_defs)
  have r0: "reply_at ?w 0 = status_reply ''LOAD_IN_QUEUE''"
    by (simp add: reply_at_def scripted_def)
  have sent: "gets_sent ?w = 0" and tr: "trace ?w = []"
    by (simp_all add: scripted_def)
  have c: "LOAD_IN_QUEUE neptune_names = ''LOAD_IN_QUEUE''" and f: "LOAD_FAILED neptune_names = ''LOAD_FAILED''"
    by (simp_all add: neptune_names_def)
  show ?thesis
    using in_queue_stops_at_first_fetch [OF ok js q l at, of example_config "Some ''nodes.csv''" "''https://db/loader''"]
      ok js q at
    by (simp add: r0 sent tr c f)
qed

text \<open>
  Claim C4. Let the submission be accepted and the limit be at least 1. If the first
  status answer is HTTP 200 with status \<^verbatim>\<open>LOAD_COMPLETED\<close>, both functions send
  exactly one status request, skip the backoff pause and return \<^verbatim>\<open>LOAD_COMPLETED\<close>.
\<close>

theorem completed_at_first_fetch:
  assumes ok: "status_code (post_reply w) = HTTP_OK"
    and js: "body_is_json (post_reply w)"
    and q: "load_id_of c (json_body (post_reply w)) = Inr q"
    and l: "1 \<le> l"
    and at: "reports c (reply_at w 0) (JStr (LOAD_COMPLETED c))"
  shows "create_node cfg c (Some l) key url w =
           (Inr (JStr (LOAD_COMPLETED c)),
            w\<lparr>gets_sent := Suc (gets_sent w),
              trace := trace w @ [Post url (create_payload cfg c key), Sleep 2,
                Get url q, Sleep 1, LogInfo (json_body (reply_at w 0))]\<rparr>)
       \<and> upsert_node cfg c (Some l) key url w =
           (Inr (JStr (LOAD_COMPLETED c)),
            w\<lparr>gets_sent := Suc (gets_sent w),
              trace := trace w @ [Post url (upsert_payload cfg c key), Sleep 2,
                Get url q, Sleep 1, LogInfo (json_body (reply_at w 0))]
                @ (if LOAD_COMPLETED c = LOAD_FAILED c
                   then [LogError (json_body (reply_at w 0))] else [])\<rparr>)"
proof -
  have j: "0 < nat l"
    using l by simp
  have before: "\<forall>i<0. transitional c (reply_at w i)"
    by simp
  have stop: "stopping c (JStr (LOAD_COMPLETED c))"
    by (simp add: stopping_def)
  show ?thesis
    unfolding create_node_stop [OF ok js q j before at stop]
      upsert_node_stop [OF ok js q j before at stop]
    by (simp add: backoff_rounds_def)
qed

theorem completed_at_first_fetch_witness:
  "status_code (post_reply completed_world) = HTTP_OK
   \<and> body_is_json (post_reply completed_world)
   \<and> load_id_of neptune_names (json_body (post_reply completed_world)) = Inr (JStr ''ef478d76'')
   \<and> (1::int) \<le> 4
   \<and> reports neptune_names (reply_at completed_world 0) (JStr (LOAD_COMPLETED neptune_names))
   \<and> fst (create_node example_config neptune_names (Some 4) (Some ''nodes.csv'')
          ''https://db/loader'' completed_world)
       = Inr (JStr ''LOAD_COMPLETED'')
   \<and> trace (snd (create_node example_config neptune_names (Some 4) (Some ''nodes.csv'')
          ''https://db/loader'' completed_world))
       = [Post ''https://db/loader'' (create_payload example_config neptune_names (Some ''nodes.csv'')),
          Sleep 2, Get ''https://db/loader'' (JStr ''ef478d76''), Sleep 1,
          LogInfo (json_body (status_reply ''LOAD_COMPLETED''))]
   \<and> gets_sent (snd (create_node example_config neptune_names (Some 4) (Some ''nodes.csv'')
          ''https://db/loader'' completed_world)) = 1
   \<and> fst (upsert_node example_config neptune_names (Some 4) (Some ''nodes.csv'')
          ''https://db/loader'' completed_world)
       = Inr (JStr ''LOAD_COMPLETED'')
   \<and> trace (snd (upsert_node example_config neptune_names (Some 4) (Some ''nodes.csv'')
          ''https://db/loader'' completed_world))
       = [Post ''https://db/loader'' (upsert_payload example_config neptune_names (Some ''nodes.csv'')),
          Sleep 2, Get ''https://db/loader'' (JStr ''ef478d76''), Sleep 1,
          LogInfo (json_body (status_reply ''LOAD_COMPLETED''))]"
proof -
  let ?w = "completed_world"
  have ok: "status_code (post_reply ?w) = HTTP_OK"
    by (simp add: run_defs)
  have js: "body_is_json (post_reply ?w)"
    by (simp add: run_defs)
  have q: "load_id_of neptune_names (json_body (post_reply ?w)) = Inr (JStr ''ef478d76'')"
    by (simp add: run_defs)
  have l: "(1::int) \<le> 4"
    by simp
  have at: "reports neptune_names (reply_at ?w 0) (JStr (LOAD_COMPLETED neptune_names))"
    by (simp add: run_defs)
  have r0: "reply_at ?w 0 = status_reply ''LOAD_COMPLETED''"
    by (simp add: reply_at_def scripted_def)
  have sent: "gets_sent ?w = 0" and tr: "trace ?w = []"
    by (simp_all add: scripted_def)
  have c: "LOAD_COMPLETED neptune_names = ''LOAD_COMPLETED''" and f: "LOAD_FAILED neptune_names = ''LOAD_FAILED''"
    by (simp_all add: neptune_names_def)
  show ?thesis
    using completed_at_first_fetch [OF ok js q l at, of example_config "Some ''nodes.csv''" "''https://db/loader''"]
      ok js q at
    by (simp add: r0 sent tr c f)
qed

text \<open>
  Claim C5. Let the submission be accepted and the limit be at least 3. If the first two
  status answers are ones the loop goes on from and the third is HTTP 200 with status
  \<^verbatim>\<open>LOAD_FAILED\<close>, both functions send exactly three status requests and return
  \<^verbatim>\<open>LOAD_FAILED\<close>. The trace of \<^verbatim>\<open>upsert_node\<close> ends with one error-level record of
  the third answer; the trace of \<^verbatim>\<open>create_node\<close> has no error-level record.
\<close>

theorem failed_after_two_transitional:
  assumes ok: "status_code (post_reply w) = HTTP_OK"
    and js: "body_is_json (post_reply w)"
    and q: "load_id_of c (json_body (post_reply w)) = Inr q"
    and l: "3 \<le> l"
    and t0: "transitional c (reply_at w 0)"
    and t1: "transitional c (reply_at w 1)"
    and at: "reports c (reply_at w 2) (JStr (LOAD_FAILED c))"
  shows "create_node cfg c (Some l) key url w =
           (Inr (JStr (LOAD_FAILED c)),
            w\<lparr>gets_sent := gets_sent w + 3,
              trace := trace w @ [Post url (create_payload cfg c key), Sleep 2,
                Get url q, Sleep 1, LogInfo (json_body (reply_at w 0)), Sleep 3,
                Get url q, Sleep 1, LogInfo (json_body (reply_at w 1)), Sleep 3,
                Get url q, Sleep 1, LogInfo (json_body (reply_at w 2))]\<rparr>)
       \<and> upsert_node cfg c (Some l) key url w =
           (Inr (JStr (LOAD_FAILED c)),
            w\<lparr>gets_sent := gets_sent w + 3,
              trace := trace w @ [Post url (upsert_payload cfg c key), Sleep 2,
                Get url q, Sleep 1, LogInfo (json_body (reply_at w 0)), Sleep 3,
                Get url q, Sleep 1, LogInfo (json_body (reply_at w 1)), Sleep 3,
                Get url q, Sleep 1, LogInfo (json_body (reply_at w 2)),
                LogError (json_body (reply_at w 2))]\<rparr>)"
proof -
  have j: "2 < nat l"
    using l by simp
  have before: "\<forall>i<2. transitional c (reply_at w i)"
    using t0 t1 by (auto dest: less_2_cases)
  have stop: "stopping c (JStr (LOAD_FAILED c))"
    by (simp add: stopping_def)
  have two: "[0..<2] = [0, 1]"
    by (simp add: upt_conv_Cons)
  have rounds: "backoff_rounds url q w 2 =
      [Get url q, Sleep 1, LogInfo (json_body (reply_at w 0)), Sleep 3,
       Get url q, Sleep 1, LogInfo (json_body (reply_at w 1)), Sleep 3]"
    by (simp add: backoff_rounds_def backoff_round_def two)
  show ?thesis
    unfolding create_node_stop [OF ok js q j before at stop]
      upsert_node_stop [OF ok js q j before at stop] rounds
    by (simp add: numeral_3_eq_3)
qed

theorem failed_after_two_transitional_witness:
  "status_code (post_reply failing_world) = HTTP_OK
   \<and> body_is_json (post_reply failing_world)
   \<and> load_id_of neptune_names (json_body (post_reply failing_world)) = Inr (JStr ''ef478d76'')
   \<and> (3::int) \<le> 10
   \<and> transitional neptune_names (reply_at failing_world 0)
   \<and> transitional neptune_names (reply_at failing_world 1)
   \<and> reports neptune_names (reply_at failing_world 2) (JStr (LOAD_FAILED neptune_names))
   \<and> fst (create_node example_config neptune_names (Some 10) (Some ''nodes.csv'')
          ''https://db/loader'' failing_world)
       = Inr (JStr ''LOAD_FAILED'')
   \<and> gets_sent (snd (create_node example_config neptune_names (Some 10) (Some ''nodes.csv'')
          ''https://db/loader'' failing_world)) = 3
   \<and> trace (snd (create_node example_config neptune_names (Some 10) (Some ''nodes.csv'')
          ''https://db/loader'' failing_world))
       = [Post ''https://db/loader'' (create_payload example_config neptune_names (Some ''nodes.csv'')),
          Sleep 2,
          Get ''https://db/loader'' (JStr ''ef478d76''), Sleep 1,
          LogInfo (json_body (status_reply ''LOAD_IN_PROGRESS'')), Sleep 3,
          Get ''https://db/loader'' (JStr ''ef478d76''), Sleep 1,
          LogInfo (json_body (status_reply ''LOAD_IN_PROGRESS'')), Sleep 3,
          Get ''https://db/loader'' (JStr ''ef478d76''), Sleep 1,
          LogInfo (json_body (status_reply ''LOAD_FAILED''))]
   \<and> fst (upsert_node example_config neptune_names (Some 10) (Some ''nodes.csv'')
          ''https://db/loader'' failing_world)
       = Inr (JStr ''LOAD_FAILED'')
   \<and> gets_sent (snd (upsert_node example_config neptune_names (Some 10) (Some ''nodes.csv'')
          ''https://db/loader'' failing_world)) = 3
   \<and> trace (snd (upsert_node example_config neptune_names (Some 10) (Some ''nodes.csv'')
          ''https://db/loader'' failing_world))
       = [Post ''https://db/loader'' (upsert_payload example_config neptune_names (Some ''nodes.csv'')),
          Sleep 2,
          Get ''https://db/loader'' (JStr ''ef478d76''), Sleep 1,
          LogInfo (json_body (status_reply ''LOAD_IN_PROGRESS'')), Sleep 3,
          Get ''https://db/loader'' (JStr ''ef478d76''), Sleep 1,
          LogInfo (json_body (status_reply ''LOAD_IN_PROGRESS'')), Sleep 3,
          Get ''https://db/loader'' (JStr ''ef478d76''), Sleep 1,
          LogInfo (json_body (status_reply ''LOAD_FAILED'')),
          LogError (json_body (status_reply ''LOAD_FAILED''))]"
proof -
  let ?w = "failing_world"
  have ok: "status_code (post_reply ?w) = HTTP_OK"
    by (simp add: run_defs)
  have js: "body_is_json (post_reply ?w)"
    by (simp add: run_defs)
  have q: "load_id_of neptune_names (json_body (post_reply ?w)) = Inr (JStr ''ef478d76'')"
    by (simp add: run_defs)
  have l: "(3::int) \<le> 10"
    by simp
  have t0: "transitional neptune_names (reply_at ?w 0)"
    by (simp add: run_defs)
  have t1: "transitional neptune_names (reply_at ?w 1)"
    by (simp add: run_defs)
  have at: "reports neptune_names (reply_at ?w 2) (JStr (LOAD_FAILED neptune_names))"
    by (simp add: run_defs)
  have r: "reply_at ?w 0 = status_reply ''LOAD_IN_PROGRESS''"
    "reply_at ?w (Suc 0) = status_reply ''LOAD_IN_PROGRESS''"
    "reply_at ?w 2 = status_reply ''LOAD_FAILED''"
    by (simp_all add: reply_at_def scripted_def)
  have sent: "gets_sent ?w = 0" and tr: "trace ?w = []"
    by (simp_all add: scripted_def)
  have f: "LOAD_FAILED neptune_names = ''LOAD_FAILED''"
    by (simp add: neptune_names_def)
  show ?thesis
    using failed_after_two_transitional [OF ok js q l t0 t1 at, of example_config
        "Some ''nodes.csv''" "''https://db/loader''"]
      ok js q t0 t1 at
    by (simp add: r sent tr f)
qed

text \<open>
  Claim C7. Let the submission be accepted and let the status answer number \<open>j\<close>
  (counted from 0, within the limit) be the first that is not HTTP 200, all earlier ones
  being answers the loop goes on from. Then both functions raise
  \<^verbatim>\<open>Exception("error fetching status neptune")\<close>; exactly \<open>j + 1\<close> status requests were
  sent, and the failing request is the last entry of the trace: nothing is logged or
  classified for it, it is not repeated, and no later iteration runs.
\<close>

theorem fetch_error_aborts_loop:
  assumes ok: "status_code (post_reply w) = HTTP_OK"
    and js: "body_is_json (post_reply w)"
    and q: "load_id_of c (json_body (post_reply w)) = Inr q"
    and j: "j < nat l"
    and before: "\<forall>i<j. transitional c (reply_at w i)"
    and at: "status_code (reply_at w j) \<noteq> HTTP_OK"
  shows "create_node cfg c (Some l) key url w =
           (Inl (Exception ''error fetching status neptune'' []),
            w\<lparr>gets_sent := gets_sent w + Suc j,
              trace := trace w @ [Post url (create_payload cfg c key), Sleep 2]
                @ backoff_rounds url q w j @ [Get url q]\<rparr>)
       \<and> upsert_node cfg c (Some l) key url w =
           (Inl (Exception ''error fetching status neptune'' []),
            w\<lparr>gets_sent := gets_sent w + Suc j,
              trace := trace w @ [Post url (upsert_payload cfg c key), Sleep 2]
                @ backoff_rounds url q w j @ [Get url q]\<rparr>)"
  using create_node_fetch_error [OF ok js q j before at]
    upsert_node_fetch_error [OF ok js q j before at]
  by simp

theorem fetch_error_aborts_loop_witness:
  "status_code (post_reply broken_world) = HTTP_OK
   \<and> body_is_json (post_reply broken_world)
   \<and> load_id_of neptune_names (json_body (post_reply broken_world)) = Inr (JStr ''ef478d76'')
   \<and> (1::nat) < nat 5
   \<and> transitional neptune_names (reply_at broken_world 0)
   \<and> status_code (reply_at broken_world 1) \<noteq> HTTP_OK
   \<and> fst (create_node example_config neptune_names (Some 5) (Some ''nodes.csv'')
          ''https://db/loader'' broken_world)
       = Inl (Exception ''error fetching status neptune'' [])
   \<and> gets_sent (snd (create_node example_config neptune_names (Some 5) (Some ''nodes.csv'')
          ''https://db/loader'' broken_world)) = 2
   \<and> trace (snd (create_node example_config neptune_names (Some 5) (Some ''nodes.csv'')
          ''https://db/loader'' broken_world))
       = [Post ''https://db/loader'' (create_payload example_config neptune_names (Some ''nodes.csv'')),
          Sleep 2,
          Get ''https://db/loader'' (JStr ''ef478d76''), Sleep 1,
          LogInfo (json_body (status_reply ''LOAD_IN_PROGRESS'')), Sleep 3,
          Get ''https://db/loader'' (JStr ''ef478d76'')]
   \<and> fst (upsert_node example_config neptune_names (Some 5) (Some ''nodes.csv'')
          ''https://db/loader'' broken_world)
       = Inl (Exception ''error fetching status neptune'' [])
   \<and> gets_sent (snd (upsert_node example_config neptune_names (Some 5) (Some ''nodes.csv'')
          ''https://db/loader'' broken_world)) = 2"
proof -
  let ?w = "broken_world"
  have ok: "status_code (post_reply ?w) = HTTP_OK"
    by (simp add: run_defs)
  have js: "body_is_json (post_reply ?w)"
    by (simp add: run_defs)
  have q: "load_id_of neptune_names (json_body (post_reply ?w)) = Inr (JStr ''ef478d76'')"
    by (simp add: run_defs)
  have j: "(1::nat) < nat 5"
    by simp
  have t0: "transitional neptune_names (reply_at ?w 0)"
    by (simp add: run_defs)
  then have before: "\<forall>i<1. transitional neptune_names (reply_at ?w i)"
    by simp
  have at: "status_code (reply_at ?w 1) \<noteq> HTTP_OK"
    by (simp add: run_defs)
  have r: "reply_at ?w 0 = status_reply ''LOAD_IN_PROGRESS''"
    by (simp add: reply_at_def scripted_def)
  have sent: "gets_sent ?w = 0" and tr: "trace ?w = []"
    by (simp_all add: scripted_def)
  have rounds: "backoff_rounds ''https://db/loader'' (JStr ''ef478d76'') ?w 1 =
      [Get ''https://db/loader'' (JStr ''ef478d76''), Sleep 1,
       LogInfo (json_body (status_reply ''LOAD_IN_PROGRESS'')), Sleep 3]"
    by (simp add: backoff_rounds_def backoff_round_def r)
  show ?thesis
    using fetch_error_aborts_loop [OF ok js q j before at, of example_config
        "Some ''nodes.csv''" "''https://db/loader''"]
      ok js q t0 at
    unfolding rounds
    by (simp add: sent tr)
qed

text \<open>
  Claim C8. Whatever the world, the limit and the key: if a call sent its \<open>j\<close>-th status
  request and the answer to it is HTTP 200 with status \<^verbatim>\<open>LOAD_FAILED\<close>, the call
  returns \<^verbatim>\<open>LOAD_FAILED\<close> as its value (an \<open>Inr\<close> result); it raises nothing. This holds
  for \<^verbatim>\<open>create_node\<close> and for \<^verbatim>\<open>upsert_node\<close>.
\<close>

theorem failed_status_returned_as_data:
  assumes at: "reports c (reply_at w j) (JStr (LOAD_FAILED c))"
  shows "(fetched w j (snd (create_node cfg c limit key url w))
            \<longrightarrow> fst (create_node cfg c limit key url w) = Inr (JStr (LOAD_FAILED c)))
       \<and> (fetched w j (snd (upsert_node cfg c limit key url w))
            \<longrightarrow> fst (upsert_node cfg c limit key url w) = Inr (JStr (LOAD_FAILED c)))"
proof -
  have stop: "stopping c (JStr (LOAD_FAILED c))"
    by (simp add: stopping_def)
  have cr: "fst (create_node cfg c limit key url w) = Inr (JStr (LOAD_FAILED c))"
    if "fetched w j (snd (create_node cfg c limit key url w))"
  proof -
    from that obtain q l where ok: "status_code (post_reply w) = HTTP_OK"
      and js: "body_is_json (post_reply w)"
      and q: "load_id_of c (json_body (post_reply w)) = Inr q"
      and l: "limit = Some l" and j: "j < nat l"
      and before: "\<forall>i<j. transitional c (reply_at w i)"
      unfolding fetched_def by (blast dest: create_node_reached)
    show ?thesis
      unfolding l create_node_stop [OF ok js q j before at stop] by simp
  qed
  have up: "fst (upsert_node cfg c limit key url w) = Inr (JStr (LOAD_FAILED c))"
    if "fetched w j (snd (upsert_node cfg c limit key url w))"
  proof -
    from that obtain q l where ok: "status_code (post_reply w) = HTTP_OK"
      and js: "body_is_json (post_reply w)"
      and q: "load_id_of c (json_body (post_reply w)) = Inr q"
      and l: "limit = Some l" and j: "j < nat l"
      and before: "\<forall>i<j. transitional c (reply_at w i)"
      unfolding fetched_def by (blast dest: upsert_node_reached)
    show ?thesis
      unfolding l upsert_node_stop [OF ok js q j before at stop] by simp
  qed
  show ?thesis
    using cr up by blast
qed

theorem failed_status_returned_as_data_witness:
  "reports neptune_names (reply_at failing_world 2) (JStr (LOAD_FAILED neptune_names))
   \<and> fetched failing_world 2
       (snd (create_node example_config neptune_names (Some 3) None ''https://db/loader'' failing_world))
   \<and> fst (create_node example_config neptune_names (Some 3) None ''https://db/loader'' failing_world)
       = Inr (JStr ''LOAD_FAILED'')
   \<and> fetched failing_world 2
       (snd (upsert_node example_config neptune_names (Some 3) None ''https://db/loader'' failing_world))
   \<and> fst (upsert_node example_config neptune_names (Some 3) None ''https://db/loader'' failing_world)
       = Inr (JStr ''LOAD_FAILED'')"
proof -
  let ?w = "failing_world"
  have at: "reports neptune_names (reply_at ?w 2) (JStr (LOAD_FAILED neptune_names))"
    by (simp add: run_defs)
  have sent: "gets_sent ?w = 0"
    by (simp add: scripted_def)
  have fc: "fetched ?w 2
      (snd (create_node example_config neptune_names (Some 3) None ''https://db/loader'' ?w))"
    by (simp add: fetched_def script_failed_third sent)
  have fu: "fetched ?w 2
      (snd (upsert_node example_config neptune_names (Some 3) None ''https://db/loader'' ?w))"
    by (simp add: fetched_def script_failed_third sent)
  have f: "LOAD_FAILED neptune_names = ''LOAD_FAILED''"
    by (simp add: neptune_names_def)
  show ?thesis
    using failed_status_returned_as_data [OF at, of example_config "Some 3" None
        "''https://db/loader''"] at fc fu
    by (simp add: f)
qed

text \<open>
  Claim C9. Whatever the world, the limit and the key: if a call sent its \<open>j\<close>-th status
  request and the answer to it is HTTP 200 with status \<^verbatim>\<open>LOAD_COMPLETED\<close> or
  \<^verbatim>\<open>LOAD_FAILED\<close>, then that request was the last one of the call (it sent exactly
  \<open>j + 1\<close>) and the call returns that status.
\<close>

theorem terminal_status_ends_polling:
  assumes at: "reports c (reply_at w j) s"
    and s: "s = JStr (LOAD_COMPLETED c) \<or> s = JStr (LOAD_FAILED c)"
  shows "(fetched w j (snd (create_node cfg c limit key url w))
            \<longrightarrow> fst (create_node cfg c limit key url w) = Inr s
              \<and> gets_sent (snd (create_node cfg c limit key url w)) = gets_sent w + Suc j)
       \<and> (fetched w j (snd (upsert_node cfg c limit key url w))
            \<longrightarrow> fst (upsert_node cfg c limit key url w) = Inr s
              \<and> gets_sent (snd (upsert_node cfg c limit key url w)) = gets_sent w + Suc j)"
proof -
  have stop: "stopping c s"
    using s by (auto simp: stopping_def)
  have cr: "fst (create_node cfg c limit key url w) = Inr s
      \<and> gets_sent (snd (create_node cfg c limit key url w)) = gets_sent w + Suc j"
    if "fetched w j (snd (create_node cfg c limit key url w))"
  proof -
    from that obtain q l where ok: "status_code (post_reply w) = HTTP_OK"
      and js: "body_is_json (post_reply w)"
      and q: "load_id_of c (json_body (post_reply w)) = Inr q"
      and l: "limit = Some l" and j: "j < nat l"
      and before: "\<forall>i<j. transitional c (reply_at w i)"
      unfolding fetched_def by (blast dest: create_node_reached)
    show ?thesis
      unfolding l create_node_stop [OF ok js q j before at stop] by simp
  qed
  have up: "fst (upsert_node cfg c limit key url w) = Inr s
      \<and> gets_sent (snd (upsert_node cfg c limit key url w)) = gets_sent w + Suc j"
    if "fetched w j (snd (upsert_node cfg c limit key url w))"
  proof -
    from that obtain q l where ok: "status_code (post_reply w) = HTTP_OK"
      and js: "body_is_json (post_reply w)"
      and q: "load_id_of c (json_body (post_reply w)) = Inr q"
      and l: "limit = Some l" and j: "j < nat l"
      and before: "\<forall>i<j. transitional c (reply_at w i)"
      unfolding fetched_def by (blast dest: upsert_node_reached)
    show ?thesis
      unfolding l upsert_node_stop [OF ok js q j before at stop] by simp
  qed
  show ?thesis
    using cr up by blast
qed

theorem terminal_status_ends_polling_witness:
  "reports neptune_names (reply_at completing_world 1) (JStr ''LOAD_COMPLETED'')
   \<and> (JStr ''LOAD_COMPLETED'' = JStr (LOAD_COMPLETED neptune_names)
        \<or> JStr ''LOAD_COMPLETED'' = JStr (LOAD_FAILED neptune_names))
   \<and> fetched completing_world 1
       (snd (create_node example_config neptune_names (Some 5) (Some ''nodes.csv'')
          ''https://db/loader'' completing_world))
   \<and> fst (create_node example_config neptune_names (Some 5) (Some ''nodes.csv'')
          ''https://db/loader'' completing_world)
       = Inr (JStr ''LOAD_COMPLETED'')
   \<and> gets_sent (snd (create_node example_config neptune_names (Some 5) (Some ''nodes.csv'')
          ''https://db/loader'' completing_world)) = 2
   \<and> fetched completing_world 1
       (snd (upsert_node example_config neptune_names (Some 5) (Some ''nodes.csv'')
          ''https://db/loader'' completing_world))
   \<and> fst (upsert_node example_config neptune_names (Some 5) (Some ''nodes.csv'')
          ''https://db/loader'' completing_world)
       = Inr (JStr ''LOAD_COMPLETED'')
   \<and> gets_sent (snd (upsert_node example_config neptune_names (Some 5) (Some ''nodes.csv'')
          ''https://db/loader'' completing_world)) = 2"
proof -
  let ?w = "completing_world"
  have at: "reports neptune_names (reply_at ?w 1) (JStr ''LOAD_COMPLETED'')"
    by (simp add: run_defs)
  have s: "JStr ''LOAD_COMPLETED'' = JStr (LOAD_COMPLETED neptune_names)
      \<or> JStr ''LOAD_COMPLETED'' = JStr (LOAD_FAILED neptune_names)"
    by (simp add: neptune_names_def)
  have sent: "gets_sent ?w = 0"
    by (simp add: scripted_def)
  have fc: "fetched ?w 1
      (snd (create_node example_config neptune_names (Some 5) (Some ''nodes.csv'')
         ''https://db/loader'' ?w))"
    by (simp add: fetched_def script_completed_second sent)
  have fu: "fetched ?w 1
      (snd (upsert_node example_config neptune_names (Some 5) (Some ''nodes.csv'')
         ''https://db/loader'' ?w))"
    by (simp add: fetched_def script_completed_second sent)
  show ?thesis
    using terminal_status_ends_polling [OF at s, of example_config "Some 5"
        "Some ''nodes.csv''" "''https://db/loader''"] at s fc fu
    by (simp add: sent)
qed

subsection \<open>The limit\<close>

text \<open>
  Claim C10. Let the submission be accepted with an answer whose payload has the load id
  but no overall-status member. With the default limit \<^verbatim>\<open>None\<close> both functions raise
  \<^verbatim>\<open>TypeError\<close> after the submission and before any status request; with a limit
  \<open>l \<le> 0\<close> the loop body never runs and the final lookup, applied to the answer to
  the submission, raises \<^verbatim>\<open>KeyError\<close> for the overall-status key, again with no status
  request sent. So either function returns a value only if the limit is an integer that is
  at least 1.
\<close>

theorem outcome_needs_positive_limit:
  assumes ok: "status_code (post_reply w) = HTTP_OK"
    and js: "body_is_json (post_reply w)"
    and p: "getitem (json_body (post_reply w)) (PAYLOAD c) = Inr (JObj kvs)"
    and id: "map_of kvs (LOAD_ID c) = Some q"
    and nostatus: "map_of kvs (OVERALLSTATUS c) = None"
  shows "create_node cfg c None key url w =
           (Inl TypeError,
            w\<lparr>trace := trace w @ [Post url (create_payload cfg c key), Sleep 2]\<rparr>)
       \<and> upsert_node cfg c None key url w =
           (Inl TypeError,
            w\<lparr>trace := trace w @ [Post url (upsert_payload cfg c key), Sleep 2]\<rparr>)
       \<and> (l \<le> 0 \<longrightarrow>
            create_node cfg c (Some l) key url w =
              (Inl (KeyError (OVERALLSTATUS c)),
               w\<lparr>trace := trace w @ [Post url (create_payload cfg c key), Sleep 2]\<rparr>)
          \<and> upsert_node cfg c (Some l) key url w =
              (Inl (KeyError (OVERALLSTATUS c)),
               w\<lparr>trace := trace w @ [Post url (upsert_payload cfg c key), Sleep 2]\<rparr>))
       \<and> ((\<exists>v. fst (create_node cfg c limit key url w) = Inr v) \<longrightarrow> (\<exists>n\<ge>1. limit = Some n))
       \<and> ((\<exists>v. fst (upsert_node cfg c limit key url w) = Inr v) \<longrightarrow> (\<exists>n\<ge>1. limit = Some n))"
proof -
  have q: "load_id_of c (json_body (post_reply w)) = Inr q"
    by (simp add: load_id_of_def p id)
  have st: "status_of c (json_body (post_reply w)) = Inl (KeyError (OVERALLSTATUS c))"
    by (simp add: status_of_def p nostatus)
  have cn: "create_node cfg c None key url w =
      (Inl TypeError, w\<lparr>trace := trace w @ [Post url (create_payload cfg c key), Sleep 2]\<rparr>)"
    using ok js q
    by (simp add: create_node_def rest_post_def resp_json_def sleep_def emit_def Let_def)
  have un: "upsert_node cfg c None key url w =
      (Inl TypeError, w\<lparr>trace := trace w @ [Post url (upsert_payload cfg c key), Sleep 2]\<rparr>)"
    using ok js q
    by (simp add: upsert_node_def rest_post_def resp_json_def sleep_def emit_def Let_def)
  have c0: "create_node cfg c (Some k) key url w =
      (Inl (KeyError (OVERALLSTATUS c)),
       w\<lparr>trace := trace w @ [Post url (create_payload cfg c key), Sleep 2]\<rparr>)"
    if "k \<le> 0" for k
  proof -
    have z: "nat k = 0"
      using that by simp
    have none: "\<forall>i<nat k. transitional c (reply_at w i)"
      by (simp add: z)
    show ?thesis
      unfolding create_node_exhausted [OF ok js q none]
      by (simp add: z st backoff_rounds_def)
  qed
  have u0: "upsert_node cfg c (Some k) key url w =
      (Inl (KeyError (OVERALLSTATUS c)),
       w\<lparr>trace := trace w @ [Post url (upsert_payload cfg c key), Sleep 2]\<rparr>)"
    if "k \<le> 0" for k
  proof -
    have z: "nat k = 0"
      using that by simp
    have none: "\<forall>i<nat k. transitional c (reply_at w i)"
      by (simp add: z)
    show ?thesis
      unfolding upsert_node_exhausted [OF ok js q none]
      by (simp add: z st backoff_rounds_def)
  qed
  have conly: "\<exists>n\<ge>1. limit = Some n" if "fst (create_node cfg c limit key url w) = Inr v" for v
  proof (cases limit)
    case None
    with that cn show ?thesis by simp
  next
    case (Some k)
    show ?thesis
    proof (cases "k \<le> 0")
      case True
      with that Some c0 [of k] show ?thesis by simp
    next
      case False
      with Some show ?thesis by simp
    qed
  qed
  have uonly: "\<exists>n\<ge>1. limit = Some n" if "fst (upsert_node cfg c limit key url w) = Inr v" for v
  proof (cases limit)
    case None
    with that un show ?thesis by simp
  next
    case (Some k)
    show ?thesis
    proof (cases "k \<le> 0")
      case True
      with that Some u0 [of k] show ?thesis by simp
    next
      case False
      with Some show ?thesis by simp
    qed
  qed
  show ?thesis
    using cn un c0 [of l] u0 [of l] conly uonly by blast
qed

theorem outcome_needs_positive_limit_witness:
  "status_code (post_reply unpolled_world) = HTTP_OK
   \<and> body_is_json (post_reply unpolled_world)
   \<and> getitem (json_body (post_reply unpolled_world)) (PAYLOAD neptune_names)
       = Inr (JObj [(''loadId'', JStr ''ef478d76'')])
   \<and> map_of [(''loadId'', JStr ''ef478d76'')] (LOAD_ID neptune_names) = Some (JStr ''ef478d76'')
   \<and> map_of [(''loadId'', JStr ''ef478d76'')] (OVERALLSTATUS neptune_names) = None
   \<and> (0::int) \<le> 0
   \<and> create_node example_config neptune_names None (Some ''nodes.csv'') ''https://db/loader'' unpolled_world
       = (Inl TypeError,
          unpolled_world\<lparr>trace := [Post ''https://db/loader''
             (create_payload example_config neptune_names (Some ''nodes.csv'')), Sleep 2]\<rparr>)
   \<and> upsert_node example_config neptune_names None (Some ''nodes.csv'') ''https://db/loader'' unpolled_world
       = (Inl TypeError,
          unpolled_world\<lparr>trace := [Post ''https://db/loader''
             (upsert_payload example_config neptune_names (Some ''nodes.csv'')), Sleep 2]\<rparr>)
   \<and> create_node example_config neptune_names (Some 0) (Some ''nodes.csv'') ''https://db/loader'' unpolled_world
       = (Inl (KeyError ''overallStatus''),
          unpolled_world\<lparr>trace := [Post ''https://db/loader''
             (create_payload example_config neptune_names (Some ''nodes.csv'')), Sleep 2]\<rparr>)
   \<and> upsert_node example_config neptune_names (Some 0) (Some ''nodes.csv'') ''https://db/loader'' unpolled_world
       = (Inl (KeyError ''overallStatus''),
          unpolled_world\<lparr>trace := [Post ''https://db/loader''
             (upsert_payload example_config neptune_names (Some ''nodes.csv'')), Sleep 2]\<rparr>)"
proof -
  let ?w = "unpolled_world"
  have ok: "status_code (post_reply ?w) = HTTP_OK"
    by (simp add: run_defs)
  have js: "body_is_json (post_reply ?w)"
    by (simp add: run_defs)
  have p: "getitem (json_body (post_reply ?w)) (PAYLOAD neptune_names)
      = Inr (JObj [(''loadId'', JStr ''ef478d76'')])"
    by (simp add: run_defs)
  have id: "map_of [(''loadId'', JStr ''ef478d76'')] (LOAD_ID neptune_names) = Some (JStr ''ef478d76'')"
    by (simp add: neptune_names_def)
  have nostatus: "map_of [(''loadId'', JStr ''ef478d76'')] (OVERALLSTATUS neptune_names) = None"
    by (simp add: neptune_names_def)
  have tr: "trace ?w = []"
    by (simp add: scripted_def)
  have o: "OVERALLSTATUS neptune_names = ''overallStatus''"
    by (simp add: neptune_names_def)
  show ?thesis
    using outcome_needs_positive_limit [OF ok js p id nostatus, of example_config
        "Some ''nodes.csv''" "''https://db/loader''" 0 None]
      ok js p id nostatus
    by (simp add: tr o)
qed

subsection \<open>The request payloads\<close>

text \<open>
  Claim C2, as it is written, has \<^verbatim>\<open>upsert_node\<close> send the queueing flag set to false.
  It does not: the dict it posts has no \<^verbatim>\<open>queueRequest\<close> member at all.
\<close>

theorem upsert_payload_has_no_queue_flag:
  "map_of (upsert_payload example_config neptune_names (Some ''nodes.csv'')) ''queueRequest'' = None
   \<and> map_of (upsert_payload example_config neptune_names (Some ''nodes.csv'')) ''queueRequest''
       \<noteq> Some ''FALSE''"
  by (simp add: upsert_payload_def)

text \<open>
  Claim C2, amended. \<^verbatim>\<open>create_node\<close> posts \<^verbatim>\<open>queueRequest\<close> \<^verbatim>\<open>"TRUE"\<close> and
  \<^verbatim>\<open>updateSingleCardinalityProperties\<close> \<^verbatim>\<open>"FALSE"\<close>; \<^verbatim>\<open>upsert_node\<close> posts no
  \<^verbatim>\<open>queueRequest\<close> member and \<^verbatim>\<open>updateSingleCardinalityProperties\<close> \<^verbatim>\<open>"TRUE"\<close>; with
  these two members left out, the two payloads for the same configuration and key are the
  same list of members.
\<close>

theorem payloads_differ_in_two_fields:
  "map_of (create_payload cfg c key) ''queueRequest'' = Some ''TRUE''
   \<and> map_of (create_payload cfg c key) ''updateSingleCardinalityProperties'' = Some ''FALSE''
   \<and> map_of (upsert_payload cfg c key) ''queueRequest'' = None
   \<and> map_of (upsert_payload cfg c key) ''updateSingleCardinalityProperties'' = Some ''TRUE''
   \<and> filter (\<lambda>kv. fst kv \<noteq> ''queueRequest'' \<and> fst kv \<noteq> ''updateSingleCardinalityProperties'')
        (create_payload cfg c key)
     = filter (\<lambda>kv. fst kv \<noteq> ''queueRequest'' \<and> fst kv \<noteq> ''updateSingleCardinalityProperties'')
        (upsert_payload cfg c key)"
  by (simp add: create_payload_def upsert_payload_def)

subsection \<open>Submission\<close>

text \<open>
  What both functions do when the answer to the submission is not HTTP 200, whatever the
  limit is: they send no status request and read no load id; the request and the pause
  after it are the only new trace entries. They raise
  \<^verbatim>\<open>Exception("Error to post neptune -> ", resp.json())\<close> if the body of the answer is
  JSON; if it is not, evaluating the argument \<^verbatim>\<open>resp.json()\<close> raises the decode error and
  the exception of the code is never built.
\<close>

lemma rejected_submission_raises:
  assumes "status_code (post_reply w) \<noteq> HTTP_OK"
  shows "create_node cfg c limit key url w =
           (if body_is_json (post_reply w)
            then Inl (Exception ''Error to post neptune -> '' [json_body (post_reply w)])
            else Inl JSONDecodeError,
            w\<lparr>trace := trace w @ [Post url (create_payload cfg c key), Sleep 2]\<rparr>)
       \<and> upsert_node cfg c limit key url w =
           (if body_is_json (post_reply w)
            then Inl (Exception ''Error to post neptune -> '' [json_body (post_reply w)])
            else Inl JSONDecodeError,
            w\<lparr>trace := trace w @ [Post url (upsert_payload cfg c key), Sleep 2]\<rparr>)"
  using assms
  by (simp add: create_node_def upsert_node_def rest_post_def resp_json_def sleep_def emit_def
      Let_def)


end
